theory Spec2Isabelle
  imports Complex_Main "HOL-Library.Word"
begin

unbundle bit_operations_syntax

section \<open>A shallow embedding of \<open>parse_eit.c\<close>\<close>

text \<open>
  The program reads DVB Event Information Table files and prints their content as JSON.
  Bytes are \<open>8 word\<close>. A C pointer into a byte buffer is modelled by the function
  that reads relative to it: \<open>p k\<close> is \<open>p[k]\<close>. Values of C type \<open>int\<close> are
  \<open>int\<close> (the values computed below stay far inside the 32-bit range), \<open>size_t\<close>
  lengths are \<open>nat\<close>, and where the source lets a \<open>size_t\<close> subtraction wrap the
  reduction modulo \<open>2 ^ 64\<close> is written out.
\<close>

type_synonym byte = "8 word"

definition mem_of :: "byte list \<Rightarrow> nat \<Rightarrow> byte" where
  \<comment> \<open>memory for the examples: the bytes \<open>xs\<close>, followed by zeros\<close>
  "mem_of xs k = (if k < length xs then xs ! k else 0)"

subsection \<open>Durations and start times\<close>

record s_duration =
  hour :: int
  minute :: int
  second :: int

text \<open>
  \<open>parse_duration\<close> writes through the pointer \<open>s\<close> and returns the number of bytes
  used. The model takes the structure as it was before the call and returns it with the
  return value.
\<close>

definition parse_duration :: "(nat \<Rightarrow> byte) \<Rightarrow> nat \<Rightarrow> s_duration \<Rightarrow> nat \<times> s_duration" where
  "parse_duration p len s =
     (if len < 3 then (0, s)
      else (3, s\<lparr>hour   := uint (drop_bit 4 (p 0)) * 10 + uint (p 0 AND 0x0F),
                 minute := uint (drop_bit 4 (p 1)) * 10 + uint (p 1 AND 0x0F),
                 second := uint (drop_bit 4 (p 2)) * 10 + uint (p 2 AND 0x0F)\<rparr>))"

record s_start_time =
  Y :: int
  D :: int
  M :: int
  t :: s_duration

text \<open>
  The date arithmetic of \<open>parse_start_time\<close> is done in C \<open>double\<close> and converted
  back to \<open>int\<close>, which truncates towards zero. The model computes with exact
  rationals; \<open>c_trunc\<close> is the conversion to \<open>int\<close>.
\<close>

definition c_trunc :: "rat \<Rightarrow> int" where
  "c_trunc x = (if x < 0 then \<lceil>x\<rceil> else \<lfloor>x\<rfloor>)"

definition parse_start_time :: "(nat \<Rightarrow> byte) \<Rightarrow> nat \<Rightarrow> s_start_time \<Rightarrow> nat \<times> s_start_time" where
  "parse_start_time p len s =
     (if len < 5 then (0, s)
      else
        let MJD = push_bit 8 (uint (p 0)) OR uint (p 1);
            Ys = c_trunc ((of_int MJD - 15078.2) / 365.25);
            tmp = c_trunc (of_int Ys * 365.25);
            Ms = c_trunc ((of_int MJD - 14956.1 - of_int tmp) / 30.6001);
            tmp1 = c_trunc (of_int Ys * 365.25);
            tmp2 = c_trunc (of_int Ms * 30.6001);
            K = (if Ms = 14 \<or> Ms = 15 then 1 else 0);
            s1 = s\<lparr>D := MJD - 14956 - tmp1 - tmp2, Y := Ys + K, M := Ms - 1 - K * 12\<rparr>;
            s2 = s1\<lparr>t := snd (parse_duration (\<lambda>k. p (2 + k)) (len - 2) (t s1))\<rparr>
        in (5, s2))"

subsection \<open>The header bits read by \<open>main\<close>\<close>

definition running_status :: "(nat \<Rightarrow> byte) \<Rightarrow> byte" where
  "running_status p = p 0 AND 0x03"

definition free_CA_mode :: "(nat \<Rightarrow> byte) \<Rightarrow> byte" where
  "free_CA_mode p = drop_bit 3 (p 0) AND 0x01"

definition descriptors_loop_length :: "(nat \<Rightarrow> byte) \<Rightarrow> 16 word" where
  "descriptors_loop_length p =
     word_of_int (push_bit 8 (uint (p 0 AND 0xF0)) OR uint (p 1))"

subsection \<open>Formatting numbers as \<open>printf\<close> does\<close>

definition digit_char :: "int \<Rightarrow> char" where
  \<comment> \<open>the digits \<open>0\<close> to \<open>9\<close> and \<open>a\<close> to \<open>f\<close>\<close>
  "digit_char d = char_of (if d < 10 then 48 + d else 87 + d)"

function radix_digits :: "int \<Rightarrow> int \<Rightarrow> string" where
  "radix_digits b n =
     (if n < b \<or> b < 2 then [digit_char n]
      else radix_digits b (n div b) @ [digit_char (n mod b)])"
  by pat_completeness auto
termination
  by (relation "measure (\<lambda>(b, n). nat n)") (auto simp: int_div_less_self)

declare radix_digits.simps [simp del]

definition fmt_i :: "int \<Rightarrow> string" where
  \<comment> \<open>\<open>%i\<close>\<close>
  "fmt_i i = (if i < 0 then CHR ''-'' # radix_digits 10 (- i) else radix_digits 10 i)"

definition zero_pad :: "nat \<Rightarrow> string \<Rightarrow> string" where
  "zero_pad w s = replicate (w - length s) CHR ''0'' @ s"

definition fmt_02i :: "int \<Rightarrow> string" where
  \<comment> \<open>\<open>%02i\<close>: the sign comes first, zeros fill up to two characters\<close>
  "fmt_02i i = (if i < 0 then CHR ''-'' # zero_pad 1 (radix_digits 10 (- i))
                else zero_pad 2 (radix_digits 10 i))"

definition fmt_04x :: "int \<Rightarrow> string" where
  \<comment> \<open>\<open>%04x\<close> of an \<open>int\<close> argument, which \<open>printf\<close> reads as \<open>unsigned int\<close>\<close>
  "fmt_04x i = zero_pad 4 (radix_digits 16 (i mod 2 ^ 32))"

definition fmt_c :: "byte \<Rightarrow> char" where
  \<comment> \<open>\<open>%c\<close> and \<open>putchar\<close>: the byte itself\<close>
  "fmt_c b = char_of (uint b)"

subsection \<open>The JSON escaper\<close>

text \<open>
  \<open>print_JSON_escaped\<close> walks a NUL-terminated string and prints to standard output;
  the model returns the characters printed. The argument is the memory from \<open>p\<close> on.
  \<open>*p\<close> has type \<open>char\<close>, signed on the platforms the program is built for, hence
  \<open>sint\<close>; an unsigned \<open>char\<close> gives the same three tests the same truth values.
\<close>

fun print_JSON_escaped :: "byte list \<Rightarrow> string" where
  "print_JSON_escaped [] = []"
| "print_JSON_escaped (c # p) =
     (if c = 0 then []
      else (if c = 0x22 \<or> c = 0x5C \<or> (0 \<le> sint c \<and> sint c \<le> 0x1F)
            then [CHR 0x5C, CHR ''u''] @ fmt_04x (sint c)
            else [fmt_c c]) @ print_JSON_escaped p)"

text \<open>
  The escaping rule for one character of a string, that is for a byte other than NUL: a
  double quote, a backslash and the control characters \<open>0x01\<close> to \<open>0x1F\<close> become
  \<open>\u00XX\<close>, any other character stays.
\<close>

definition json_escape_char :: "byte \<Rightarrow> string" where
  "json_escape_char c =
     (if c = 0x22 \<or> c = 0x5C \<or> (0x01 \<le> c \<and> c \<le> 0x1F)
      then [CHR 0x5C, CHR ''u'', CHR ''0'', CHR ''0'',
            digit_char (uint c div 16), digit_char (uint c mod 16)]
      else [fmt_c c])"

subsection \<open>Ways a call can end\<close>

text \<open>
  The program reports failures by ending the process: \<open>exit (-1)\<close>, or \<open>abort\<close>
  through a failed \<open>assert\<close>. A call therefore either returns to its caller
  (\<open>Return\<close>), or the process has exited with a status (\<open>Exit\<close>), or it was aborted
  (\<open>Abort\<close>). Messages on standard error are not modelled, and neither is the standard
  output already produced when the process ends early.
\<close>

datatype 'a outcome = is_Return: Return (result: 'a) | is_Exit: Exit (status: int) | Abort

definition and_then :: "'a outcome \<Rightarrow> ('a \<Rightarrow> 'b outcome) \<Rightarrow> 'b outcome" where
  "and_then r f = (case r of Return x \<Rightarrow> f x | Exit c \<Rightarrow> Exit c | Abort \<Rightarrow> Abort)"

subsection \<open>Selecting the code table\<close>

definition first_byte_table :: "byte \<Rightarrow> string \<Rightarrow> string" where
  \<comment> \<open>the first \<open>switch\<close>; \<open>dflt\<close> is the value \<open>*code_table\<close> keeps in the default case\<close>
  "first_byte_table b dflt =
     (if b = 0x01 then ''ISO-8859-5''
      else if b = 0x02 then ''ISO-8859-6''
      else if b = 0x03 then ''ISO-8859-7''
      else if b = 0x04 then ''ISO-8859-8''
      else if b = 0x05 then ''ISO-8859-9''
      else if b = 0x06 then ''ISO-8859-10''
      else if b = 0x07 then ''ISO-8859-11''
      else if b = 0x09 then ''ISO-8859-13''
      else if b = 0x0A then ''ISO-8859-14''
      else if b = 0x0B then ''ISO-8859-15''
      else if b = 0x11 then ''ISO-10646''
      else if b = 0x13 then ''GB2312''
      else if b = 0x15 then ''ISO-10646/UTF8''
      else dflt)"

definition third_byte_table :: "byte \<Rightarrow> string \<Rightarrow> string" where
  \<comment> \<open>the second \<open>switch\<close>, on the third byte after \<open>0x10\<close>\<close>
  "third_byte_table b dflt =
     (if b = 0x01 then ''ISO-8859-1''
      else if b = 0x02 then ''ISO-8859-2''
      else if b = 0x03 then ''ISO-8859-3''
      else if b = 0x04 then ''ISO-8859-4''
      else if b = 0x05 then ''ISO-8859-5''
      else if b = 0x06 then ''ISO-8859-6''
      else if b = 0x07 then ''ISO-8859-7''
      else if b = 0x08 then ''ISO-8859-8''
      else if b = 0x09 then ''ISO-8859-9''
      else if b = 0x0A then ''ISO-8859-10''
      else if b = 0x0B then ''ISO-8859-11''
      else if b = 0x0D then ''ISO-8859-13''
      else if b = 0x0E then ''ISO-8859-14''
      else if b = 0x0F then ''ISO-8859-15''
      else dflt)"

text \<open>
  \<open>get_code_table\<close> returns the number of selector bytes and, through a pointer, the
  name of the code table; the model returns the pair.
\<close>

definition get_code_table :: "(nat \<Rightarrow> byte) \<Rightarrow> nat \<Rightarrow> (nat \<times> string) outcome" where
  "get_code_table p len =
     (let ret = 0; code_table = ''ISO-8859-1'' in
      if len \<ge> 1 then
        let first_byte_value = p 0 in
        if first_byte_value < 0x20 then
          let ret = ret + 1;
              code_table = first_byte_table first_byte_value code_table
          in
            if first_byte_value = 0x10 then
              if len \<ge> 3 then
                let second_byte_value = p 1 in
                if second_byte_value \<noteq> 0x00 then Abort
                else
                  let third_byte_value = p 2;
                      ret = ret + 2;
                      code_table = third_byte_table third_byte_value code_table
                  in Return (ret, code_table)
              else Exit (- 1)
            else Return (ret, code_table)
        else Return (ret, code_table)
      else Return (ret, code_table))"

subsection \<open>The conversion library\<close>

text \<open>
  \<open>iconv_open\<close> and \<open>iconv\<close> belong to the C library, not to the program, so the model
  takes them as a parameter. \<open>lib_open tocode fromcode\<close> says whether \<open>iconv_open\<close>
  yields a descriptor. \<open>lib_conv tocode fromcode input outbytesleft\<close> is one conversion
  with a fresh descriptor (the program opens one per text field and resets it first): the
  bytes written to the output buffer, the number of input bytes used, and \<open>errno\<close>
  when \<open>iconv\<close> returns \<open>(size_t) -1\<close>.
\<close>

datatype errno = EINVAL | EILSEQ | E2BIG | EOTHER

record conv_result =
  produced :: "byte list"
  consumed :: nat
  failure :: "errno option"

record iconv_lib =
  lib_open :: "string \<Rightarrow> string \<Rightarrow> bool"
  lib_conv :: "string \<Rightarrow> string \<Rightarrow> byte list \<Rightarrow> nat \<Rightarrow> conv_result"

definition tocode :: string where
  \<comment> \<open>the destination name as the source spells it: \<open>UTF\<close>, the three bytes of
      U+2212 (minus sign), \<open>8\<close>\<close>
  "tocode = ''UTF'' @ [CHR 0xE2, CHR 0x88, CHR 0x92] @ ''8''"

subsection \<open>Program state\<close>

text \<open>
  The state that outlives a call: standard output so far, the static \<open>bytes_left\<close> of
  \<open>dump_text\<close> (\<open>None\<close> is the null pointer, otherwise the string without its
  terminator), the counter \<open>shortevent_count\<close> of \<open>main\<close>, and the memory around the
  array \<open>buf\<close>, addressed by the offset from \<open>buf\<close>. A pointer into the buffer is that
  offset, an \<open>int\<close>.
\<close>

record state =
  out :: string
  bytes_left :: "byte list option"
  shortevent_count :: int
  buf :: "int \<Rightarrow> byte"

definition rd :: "(int \<Rightarrow> byte) \<Rightarrow> int \<Rightarrow> nat \<Rightarrow> byte" where
  \<comment> \<open>the pointer \<open>p\<close> into memory \<open>m\<close>, as the reading function the leaf functions take\<close>
  "rd m p k = m (p + int k)"

definition peek :: "(int \<Rightarrow> byte) \<Rightarrow> int \<Rightarrow> nat \<Rightarrow> byte list" where
  \<comment> \<open>the \<open>n\<close> bytes at \<open>p\<close>\<close>
  "peek m p n = map (rd m p) [0..<n]"

definition poke :: "(int \<Rightarrow> byte) \<Rightarrow> int \<Rightarrow> byte list \<Rightarrow> (int \<Rightarrow> byte)" where
  \<comment> \<open>memory after copying \<open>bs\<close> to \<open>p\<close>\<close>
  "poke m p bs = (\<lambda>a. if p \<le> a \<and> a < p + int (length bs) then bs ! nat (a - p) else m a)"

definition strndup :: "byte list \<Rightarrow> byte list" where
  \<comment> \<open>\<open>strndup (pin, len)\<close> on the \<open>len\<close> bytes at \<open>pin\<close>: the copy stops at a NUL\<close>
  "strndup bs = takeWhile (\<lambda>b. b \<noteq> 0) bs"

definition emit :: "string \<Rightarrow> state \<Rightarrow> state" where
  "emit s st = st\<lparr>out := out st @ s\<rparr>"

definition DQ :: string where
  \<comment> \<open>a double quote\<close>
  "DQ = [CHR 0x22]"

definition quoted :: "string \<Rightarrow> string" where
  "quoted s = DQ @ s @ DQ"

subsection \<open>Decoding one text field\<close>

definition prepend_bytes_left :: "bool \<Rightarrow> int \<Rightarrow> state \<Rightarrow> int \<times> state" where
  \<comment> \<open>\<open>if (append && bytes_left) {...}\<close>, then the release of \<open>bytes_left\<close>;
      \<open>do_append\<close> is the parameter \<open>append\<close>\<close>
  "prepend_bytes_left do_append p st =
     (let (p, st) =
            (case bytes_left st of
               Some bl \<Rightarrow>
                 if do_append then
                   let num_bytes_left = length bl;
                       p = p - int num_bytes_left
                   in (p, st\<lparr>buf := poke (buf st) p bl\<rparr>)
                 else (p, st)
             | None \<Rightarrow> (p, st))
      in (p, st\<lparr>bytes_left := None\<rparr>))"

definition dump_text :: "iconv_lib \<Rightarrow> int \<Rightarrow> nat \<Rightarrow> bool \<Rightarrow> state \<Rightarrow> state outcome" where
  "dump_text L p len do_append st =
     (let outbytesleft = 2048 in
      and_then (get_code_table (rd (buf st) p) len) (\<lambda>(inc, code_table).
        let p = p + int inc;
            len = len - inc
        in
          if \<not> lib_open L tocode code_table then Exit (- 1)
          else
            let (p, st) = prepend_bytes_left do_append p st;
                r = lib_conv L tocode code_table (peek (buf st) p len) outbytesleft;
                pin = p + int (consumed r);
                len = len - consumed r;
                outbuf = produced r @ [0]
            in
              (case failure r of
                 None \<Rightarrow> Return (emit (print_JSON_escaped outbuf) st)
               | Some e \<Rightarrow>
                   if e = EINVAL then
                     Return (emit (print_JSON_escaped outbuf)
                              (st\<lparr>bytes_left := Some (strndup (peek (buf st) pin len))\<rparr>))
                   else if e = EILSEQ then Exit (- 1)
                   else if e = E2BIG then Exit (- 1)
                   else Return (emit (print_JSON_escaped outbuf) st))))"

subsection \<open>The descriptor loop of \<open>main\<close>\<close>

definition SHORT_EVENT_DESCRIPTOR :: byte where
  "SHORT_EVENT_DESCRIPTOR = 0x4d"

definition EXTENDED_EVENT_DESCRIPTOR :: byte where
  "EXTENDED_EVENT_DESCRIPTOR = 0x4e"

definition COMPONENT_DESCRIPTOR :: byte where
  "COMPONENT_DESCRIPTOR = 0x50"

text \<open>
  The three branches of the loop body. Each takes the cursor \<open>p\<close> as it is after the
  two header bytes have been read and returns the state and the cursor at the end of the
  branch.
\<close>

definition short_event_branch :: "iconv_lib \<Rightarrow> state \<Rightarrow> int \<Rightarrow> (state \<times> int) outcome" where
  "short_event_branch L st p =
     (let st = st\<lparr>shortevent_count := shortevent_count st + 1\<rparr>;
          st = emit (''  '' @ DQ @ ''short_event_descriptor_'' @ fmt_i (shortevent_count st)
                     @ DQ @ '':\<newline>  {\<newline>'') st;
          st = emit (''    '' @ quoted ''iso_639_2_language_code'' @ '': ''
                     @ quoted [fmt_c (buf st p), fmt_c (buf st (p + 1)), fmt_c (buf st (p + 2))]
                     @ '',\<newline>'') st;
          p = p + 3;
          event_name_length = buf st p;
          p = p + 1;
          st = emit (''    '' @ quoted ''event_name'' @ '': '' @ DQ) st
      in and_then (dump_text L p (unat event_name_length) False st) (\<lambda>st.
           let st = emit (DQ @ '',\<newline>'') st;
               p = p + uint event_name_length;
               text_length = buf st p;
               p = p + 1;
               st = emit (''    '' @ quoted ''text'' @ '': '' @ DQ) st
           in and_then (dump_text L p (unat text_length) False st) (\<lambda>st.
                let st = emit (DQ @ ''\<newline>  },\<newline>'') st;
                    p = p + uint text_length
                in Return (st, p))))"

definition extended_event_branch :: "iconv_lib \<Rightarrow> state \<Rightarrow> int \<Rightarrow> (state \<times> int) outcome" where
  "extended_event_branch L st p =
     (let descriptor_number = drop_bit 4 (buf st p);
          last_descriptor_number = buf st p AND 0x0F;
          p = p + 1;
          st = (if descriptor_number = 0 then
                  emit (''  '' @ quoted ''extended_event_descriptor'' @ '':\<newline>  {\<newline>''
                        @ ''    '' @ quoted ''iso_639_2_language_code'' @ '': ''
                        @ quoted [fmt_c (buf st p), fmt_c (buf st (p + 1)), fmt_c (buf st (p + 2))]
                        @ '',\<newline>''
                        @ ''    '' @ quoted ''text'' @ '': '' @ DQ) st
                else st);
          p = p + 3;
          length_of_items = buf st p;
          p = p + 1
      in
        if length_of_items > 0 then Exit (- 1)
        else
          let text_length = buf st p;
              p = p + 1
          in and_then (dump_text L p (unat text_length) (descriptor_number > 0) st) (\<lambda>st.
               let st = (if descriptor_number = last_descriptor_number
                         then emit (DQ @ ''\<newline>  },\<newline>'') st else st);
                   p = p + uint text_length
               in Return (st, p)))"

text \<open>
  In the component branch \<open>size_t len = descriptor_length - 6\<close> wraps for a declared
  length below 6, and \<open>p += len\<close> then wraps around the address space, which moves the
  pointer by the signed value of \<open>len\<close>.
\<close>

definition component_branch :: "byte \<Rightarrow> state \<Rightarrow> int \<Rightarrow> (state \<times> int) outcome" where
  "component_branch descriptor_length st p =
     (let p = p + 6;
          len = (word_of_int (uint descriptor_length - 6) :: 64 word);
          p = p + sint len
      in Return (st, p))"

definition descriptor_step :: "iconv_lib \<Rightarrow> nat \<Rightarrow> state \<Rightarrow> int \<Rightarrow> (state \<times> int) outcome" where
  \<comment> \<open>one pass through the body of \<open>while (p < (buf + num))\<close>\<close>
  "descriptor_step L num st p =
     (let descriptor_tag = buf st p;
          descriptor_length = buf st (p + 1);
          p = p + 2
      in
        if descriptor_tag = SHORT_EVENT_DESCRIPTOR then short_event_branch L st p
        else if descriptor_tag = EXTENDED_EVENT_DESCRIPTOR then extended_event_branch L st p
        else if descriptor_tag = COMPONENT_DESCRIPTOR then component_branch descriptor_length st p
        else
          let bytes_left = int num - p in
          if bytes_left > 0 then Exit (- 1)
          else Return (st, p))"

lemma sint_component_len:
  "sint (word_of_int (uint (l :: byte) - 6) :: 64 word) = uint l - 6"
proof -
  have "uint l < 256" using uint_bounded [of l] by simp
  moreover have "0 \<le> uint l" by simp
  ultimately have "- (2 ^ 63) \<le> uint l - 6 \<and> uint l - 6 < 2 ^ 63" by simp
  then have "signed_take_bit (LENGTH(64) - 1) (uint l - 6) = uint l - 6"
    by (intro signed_take_bit_int_eq_self) simp_all
  then show ?thesis
    by (simp only: sint_sbintrunc')
qed

lemma descriptor_step_advances:
  assumes "descriptor_step L num st p = Return (st', p')"
  shows "p + 2 \<le> p'"
proof -
  have s: "p + 2 \<le> p'" if "short_event_branch L st (p + 2) = Return (st', p')"
    using that
    by (auto simp: short_event_branch_def and_then_def Let_def split: outcome.splits)
  have e: "p + 2 \<le> p'" if "extended_event_branch L st (p + 2) = Return (st', p')"
    using that
    by (auto simp: extended_event_branch_def and_then_def Let_def split: outcome.splits if_splits)
  have c: "p + 2 \<le> p'" if "component_branch l st (p + 2) = Return (st', p')" for l
    using that unfolding component_branch_def Let_def sint_component_len by auto
  from assms s e c show ?thesis
    by (auto simp: descriptor_step_def Let_def split: if_splits)
qed

function descriptor_loop :: "iconv_lib \<Rightarrow> nat \<Rightarrow> state \<Rightarrow> int \<Rightarrow> (state \<times> int) outcome" where
  "descriptor_loop L num st p =
     (if p < int num then
        (case descriptor_step L num st p of
           Return (st', p') \<Rightarrow> descriptor_loop L num st' p'
         | Exit c \<Rightarrow> Exit c
         | Abort \<Rightarrow> Abort)
      else Return (st, p))"
  by pat_completeness auto
termination
proof (relation "measure (\<lambda>(L, num, st, p). nat (int num - p))")
  show "wf (measure (\<lambda>(L, num, st, p). nat (int num - p)))" by simp
next
  fix L num st p x2 st' p'
  assume "p < int num" and "descriptor_step L num st p = Return x2" and "(st', p') = x2"
  then have "p + 2 \<le> p'" by (auto dest: descriptor_step_advances)
  with \<open>p < int num\<close>
  show "((L, num, st', p'), (L, num, st, p)) \<in> measure (\<lambda>(L, num, st, p). nat (int num - p))"
    by simp
qed

declare descriptor_loop.simps [simp del]

text \<open>
  The tags the loop meets, in order: the same walk as \<open>descriptor_loop\<close>, recording the
  tag byte of every pass. It is used to state properties of the loop only.
\<close>

function walked_tags :: "iconv_lib \<Rightarrow> nat \<Rightarrow> state \<Rightarrow> int \<Rightarrow> byte list" where
  "walked_tags L num st p =
     (if p < int num then
        (case descriptor_step L num st p of
           Return (st', p') \<Rightarrow> buf st p # walked_tags L num st' p'
         | Exit c \<Rightarrow> [buf st p]
         | Abort \<Rightarrow> [buf st p])
      else [])"
  by pat_completeness auto
termination
proof (relation "measure (\<lambda>(L, num, st, p). nat (int num - p))")
  show "wf (measure (\<lambda>(L, num, st, p). nat (int num - p)))" by simp
next
  fix L num st p x2 st' p'
  assume "p < int num" and "descriptor_step L num st p = Return x2" and "(st', p') = x2"
  then have "p + 2 \<le> p'" by (auto dest: descriptor_step_advances)
  with \<open>p < int num\<close>
  show "((L, num, st', p'), (L, num, st, p)) \<in> measure (\<lambda>(L, num, st, p). nat (int num - p))"
    by simp
qed

declare walked_tags.simps [simp del]

subsection \<open>One file, and \<open>main\<close>\<close>

text \<open>
  What \<open>main\<close> finds for one command-line argument: the file name, the content of the
  file (\<open>None\<close> when \<open>fopen\<close> fails), the memory at and around the array \<open>buf\<close>
  before \<open>fread\<close> fills it, and the indeterminate initial values of the local
  structures \<open>st\<close> and \<open>dur\<close>.
\<close>

record input_file =
  filename :: string
  data :: "byte list option"
  stack :: "int \<Rightarrow> byte"
  st0 :: s_start_time
  dur0 :: s_duration

definition BUF_SIZE :: nat where
  "BUF_SIZE = 2000"

text \<open>
  The body of the \<open>for\<close> loop over the arguments, in three parts: what happens before
  the descriptor loop (\<open>file_header\<close>, which yields \<open>num\<close>, the state and the cursor
  the loop starts with), the loop, and the closing output (\<open>file_trailer\<close>).
  \<open>more_files\<close> is \<open>k < argc - 1\<close>.
\<close>

definition file_header :: "input_file \<Rightarrow> state \<Rightarrow> (nat \<times> state \<times> int) outcome" where
  "file_header f st =
     (let st = emit ('' {\<newline>'') st;
          st = emit (''  '' @ quoted ''filename'' @ '': '' @ quoted (filename f) @ '',\<newline>'') st
      in
        case data f of
          None \<Rightarrow> Exit (- 1)
        | Some bytes \<Rightarrow>
            let num = min (length bytes) BUF_SIZE;
                st = st\<lparr>buf := poke (stack f) 0 (take num bytes)\<rparr>
            in
              if num = BUF_SIZE then Exit (- 1)
              else
                let p = 0;
                    event_id = push_bit 8 (uint (buf st p)) OR uint (buf st (p + 1));
                    p = p + 2;
                    (r, stime) = parse_start_time (rd (buf st) p)
                                   (nat ((int num - p) mod 2 ^ 64)) (st0 f);
                    p = p + int r;
                    (r, dur) = parse_duration (rd (buf st) p)
                                 (nat ((int num - p) mod 2 ^ 64)) (dur0 f);
                    p = p + int r;
                    st = emit (''  '' @ quoted ''event_id'' @ '': '' @ fmt_i event_id @ '',\<newline>'') st;
                    st = emit (''  '' @ quoted ''start_time'' @ '': ''
                               @ quoted (fmt_i (Y stime) @ ''/'' @ fmt_i (M stime) @ ''/''
                                         @ fmt_i (D stime) @ '' '' @ fmt_02i (hour (t stime))
                                         @ '':'' @ fmt_02i (minute (t stime))
                                         @ '':'' @ fmt_02i (second (t stime)))
                               @ '',\<newline>'') st;
                    st = emit (''  '' @ quoted ''duration'' @ '': ''
                               @ quoted (fmt_02i (hour dur) @ '':'' @ fmt_02i (minute dur)
                                         @ '':'' @ fmt_02i (second dur))
                               @ '',\<newline>'') st;
                    st = emit (''  '' @ quoted ''running_status'' @ '': ''
                               @ fmt_i (uint (running_status (rd (buf st) p))) @ '',\<newline>'') st;
                    st = emit (''  '' @ quoted ''free_CA_mode'' @ '': ''
                               @ fmt_i (uint (free_CA_mode (rd (buf st) p))) @ '',\<newline>'') st;
                    p = p + 2
                in Return (num, st, p))"

definition file_trailer :: "bool \<Rightarrow> state \<Rightarrow> state" where
  "file_trailer more_files st =
     (let st = emit (''  '' @ quoted ''empty_structure'' @ '':\<newline>'') st;
          st = emit (''  {\<newline>'') st;
          st = emit (''    '' @ quoted ''dummy'' @ '': '' @ quoted ''nix'' @ '' \<newline>'') st;
          st = emit (''  }\<newline>'') st;
          st = emit ('' }'' @ (if more_files then '','' else []) @ ''\<newline>'') st
      in st)"

definition process_file :: "iconv_lib \<Rightarrow> bool \<Rightarrow> input_file \<Rightarrow> state \<Rightarrow> state outcome" where
  "process_file L more_files f st =
     and_then (file_header f st) (\<lambda>(num, st, p).
       and_then (descriptor_loop L num st p) (\<lambda>(st, p).
         Return (file_trailer more_files st)))"

fun files_loop :: "iconv_lib \<Rightarrow> input_file list \<Rightarrow> state \<Rightarrow> state outcome" where
  "files_loop L [] st = Return st"
| "files_loop L (f # fs) st = and_then (process_file L (fs \<noteq> []) f st) (files_loop L fs)"

definition initial_state :: state where
  \<comment> \<open>at program start: nothing printed, \<open>bytes_left = 0\<close>, \<open>shortevent_count = 0\<close>;
      the buffer field is set by \<open>file_header\<close> before anything reads it\<close>
  "initial_state = \<lparr>out = [], bytes_left = None, shortevent_count = 0, buf = (\<lambda>a. 0)\<rparr>"

definition main :: "iconv_lib \<Rightarrow> input_file list \<Rightarrow> state outcome" where
  \<comment> \<open>\<open>files\<close> are the arguments \<open>argv[1]\<close> onwards; \<open>Return\<close> is \<open>return 0\<close>\<close>
  "main L files =
     (let st = initial_state;
          argc = length files + 1
      in
        if argc < 2 then Exit (- 1)
        else
          let num_files = argc - 1;
              st = (if num_files > 1 then emit ''[\<newline>'' st else st)
          in and_then (files_loop L files st) (\<lambda>st.
               Return (if num_files > 1 then emit '']\<newline>'' st else st)))"

subsection \<open>A conversion library for the examples\<close>

text \<open>
  To run the model on concrete bytes the library parameter needs a value. \<open>demo_lib\<close>
  knows two source encodings and takes any destination name for UTF-8. From
  \<open>ISO-10646/UTF8\<close> it copies well-formed UTF-8, reports \<open>EILSEQ\<close> at a byte that
  cannot start or continue a sequence and \<open>EINVAL\<close> at a sequence cut off by the end of
  the input, as POSIX describes \<open>iconv\<close>. From \<open>ISO-8859-1\<close> it writes each byte as
  its UTF-8 sequence.
\<close>

definition utf8_trail :: "byte \<Rightarrow> nat option" where
  \<comment> \<open>the number of continuation bytes a lead byte asks for\<close>
  "utf8_trail b =
     (if b < 0x80 then Some 0
      else if 0xC2 \<le> b \<and> b \<le> 0xDF then Some 1
      else if 0xE0 \<le> b \<and> b \<le> 0xEF then Some 2
      else if 0xF0 \<le> b \<and> b \<le> 0xF4 then Some 3
      else None)"

definition is_cont :: "byte \<Rightarrow> bool" where
  "is_cont b \<longleftrightarrow> 0x80 \<le> b \<and> b \<le> 0xBF"

function utf8_scan :: "byte list \<Rightarrow> nat \<times> errno option" where
  "utf8_scan [] = (0, None)"
| "utf8_scan (b # bs) =
     (case utf8_trail b of
        None \<Rightarrow> (0, Some EILSEQ)
      | Some k \<Rightarrow>
          if \<not> list_all is_cont (take k bs) then (0, Some EILSEQ)
          else if length bs < k then (0, Some EINVAL)
          else (let (n, e) = utf8_scan (drop k bs) in (Suc k + n, e)))"
  by pat_completeness auto
termination
  by (relation "measure length") auto

definition latin1_to_utf8 :: "byte list \<Rightarrow> byte list" where
  "latin1_to_utf8 bs =
     concat (map (\<lambda>b. if b < 0x80 then [b] else [0xC0 OR drop_bit 6 b, 0x80 OR (b AND 0x3F)]) bs)"

definition demo_conv :: "string \<Rightarrow> string \<Rightarrow> byte list \<Rightarrow> nat \<Rightarrow> conv_result" where
  "demo_conv to from inp outbytesleft =
     (if from = ''ISO-10646/UTF8'' then
        (let (n, e) = utf8_scan inp in \<lparr>produced = take n inp, consumed = n, failure = e\<rparr>)
      else \<lparr>produced = latin1_to_utf8 inp, consumed = length inp, failure = None\<rparr>)"

definition demo_lib :: iconv_lib where
  "demo_lib = \<lparr>lib_open = (\<lambda>to from. from = ''ISO-8859-1'' \<or> from = ''ISO-10646/UTF8''),
               lib_conv = demo_conv\<rparr>"

subsection \<open>Auxiliary notions for the properties\<close>

text \<open>
  The tags met while decoding one file, and while decoding a list of files in one run.
\<close>

definition file_tags :: "iconv_lib \<Rightarrow> input_file \<Rightarrow> state \<Rightarrow> byte list" where
  "file_tags L f st =
     (case file_header f st of
        Return (num, st1, p) \<Rightarrow> walked_tags L num st1 p
      | Exit c \<Rightarrow> []
      | Abort \<Rightarrow> [])"

fun run_tags :: "iconv_lib \<Rightarrow> input_file list \<Rightarrow> state \<Rightarrow> byte list" where
  "run_tags L [] st = []"
| "run_tags L (f # fs) st =
     file_tags L f st @
       (case process_file L (fs \<noteq> []) f st of
          Return st' \<Rightarrow> run_tags L fs st'
        | Exit c \<Rightarrow> []
        | Abort \<Rightarrow> [])"

text \<open>
  Reading a decimal numeral back: the value of a non-empty string of digits, \<open>None\<close>
  for anything else.
\<close>

fun read_digits :: "int \<Rightarrow> string \<Rightarrow> int option" where
  "read_digits a [] = Some a"
| "read_digits a (c # s) =
     (if 48 \<le> (of_char c :: int) \<and> (of_char c :: int) \<le> 57
      then read_digits (10 * a + (of_char c - 48)) s
      else None)"

definition read_decimal :: "string \<Rightarrow> int option" where
  "read_decimal s = (if s = [] then None else read_digits 0 s)"

text \<open>
  What a pass of the loop leaves behind, apart from the buffer memory: how the pass
  ended and, if it returned, the output, the carried-over bytes, the counter and the
  cursor.
\<close>

definition observe :: "(state \<times> int) outcome \<Rightarrow> (string \<times> byte list option \<times> int \<times> int) outcome" where
  "observe r =
     (case r of
        Return (st, p) \<Rightarrow> Return (out st, bytes_left st, shortevent_count st, p)
      | Exit c \<Rightarrow> Exit c
      | Abort \<Rightarrow> Abort)"

subsection \<open>Example inputs\<close>

definition buffer_state :: "byte list \<Rightarrow> state" where
  \<comment> \<open>the initial state with \<open>xs\<close> in the buffer from offset 0\<close>
  "buffer_state xs = initial_state\<lparr>buf := poke (\<lambda>a. 0) 0 xs\<rparr>"

definition example_file :: "string \<Rightarrow> byte list \<Rightarrow> input_file" where
  "example_file name bytes =
     \<lparr>filename = name, data = Some bytes, stack = (\<lambda>a. 0),
      st0 = \<lparr>Y = 0, D = 0, M = 0, t = \<lparr>hour = 0, minute = 0, second = 0\<rparr>\<rparr>,
      dur0 = \<lparr>hour = 0, minute = 0, second = 0\<rparr>\<rparr>"

definition example_header :: "byte list" where
  \<comment> \<open>event 0x1234, start 93/10/13 12:45:00, duration 01:30:00, two status bytes\<close>
  "example_header = [0x12, 0x34, 0xC0, 0x79, 0x12, 0x45, 0x00, 0x01, 0x30, 0x00, 0x80, 0x00]"

definition short_event_bytes :: "byte list" where
  \<comment> \<open>a short event descriptor: language \<open>deu\<close>, name \<open>A\<close>, text \<open>B\<close>\<close>
  "short_event_bytes = [0x4D, 0x07, 0x64, 0x65, 0x75, 0x01, 0x41, 0x01, 0x42]"

definition padded_short_event_bytes :: "byte list" where
  \<comment> \<open>a short event descriptor that declares 32 bytes and has empty name and text\<close>
  "padded_short_event_bytes = [0x4D, 0x20, 0x64, 0x65, 0x75, 0x00, 0x00, 0xAA, 0xBB]"

definition continued_extended_bytes :: "byte list" where
  \<comment> \<open>an extended event descriptor, fragment 1 of 1: language \<open>deu\<close>, no items, no text\<close>
  "continued_extended_bytes = [0x4E, 0x06, 0x11, 0x64, 0x65, 0x75, 0x00, 0x00]"

definition cut_extended_bytes :: "byte list" where
  \<comment> \<open>an extended event descriptor, fragment 0 of 1, whose UTF-8 text ends in the lead
      byte \<open>C3\<close> of a two-byte character\<close>
  "cut_extended_bytes = [0x4E, 0x08, 0x01, 0x64, 0x65, 0x75, 0x00, 0x02, 0x15, 0xC3]"

definition unknown_tag_bytes :: "byte list" where
  \<comment> \<open>tag \<open>0x51\<close> with declared length 0, followed by one more byte\<close>
  "unknown_tag_bytes = [0x51, 0x00, 0x00]"

text \<open>Single passes of the loop body over the example descriptors.\<close>

definition short_event_pass :: "(state \<times> int) outcome" where
  "short_event_pass = descriptor_step demo_lib 9 (buffer_state short_event_bytes) 0"

definition padded_short_event_pass :: "(state \<times> int) outcome" where
  "padded_short_event_pass = descriptor_step demo_lib 9 (buffer_state padded_short_event_bytes) 0"

definition continued_extended_pass :: "(state \<times> int) outcome" where
  "continued_extended_pass = descriptor_step demo_lib 8 (buffer_state continued_extended_bytes) 0"

definition component_pass :: "(state \<times> int) outcome" where
  \<comment> \<open>a component descriptor that declares 2 bytes\<close>
  "component_pass = descriptor_step demo_lib 9 (buffer_state [0x50, 0x02, 0x11, 0x22]) 0"

definition final_unknown_pass :: "(state \<times> int) outcome" where
  \<comment> \<open>the unknown tag as the last two bytes of the record\<close>
  "final_unknown_pass = descriptor_step demo_lib 2 (buffer_state unknown_tag_bytes) 0"

definition two_short_event_files :: "input_file list" where
  \<comment> \<open>two files, each with one short event descriptor after the header\<close>
  "two_short_event_files =
     [example_file ''a.eit'' (example_header @ short_event_bytes),
      example_file ''b.eit'' (example_header @ short_event_bytes)]"

definition short_event_run :: "(state \<times> int) outcome" where
  \<comment> \<open>the short event branch on the example descriptor, the cursor after the header\<close>
  "short_event_run = short_event_branch demo_lib (buffer_state short_event_bytes) 2"

definition cut_file :: input_file where
  \<comment> \<open>a file whose last text field ends inside a two-byte character\<close>
  "cut_file = example_file ''a.eit'' (example_header @ cut_extended_bytes)"

definition short_file :: input_file where
  "short_file = example_file ''b.eit'' (example_header @ short_event_bytes)"

definition after_cut_file :: "state outcome" where
  \<comment> \<open>the program after decoding \<open>cut_file\<close> as the first of two files\<close>
  "after_cut_file = process_file demo_lib True cut_file initial_state"

definition after_short_file :: "state outcome" where
  \<comment> \<open>and after decoding \<open>short_file\<close> next\<close>
  "after_short_file = process_file demo_lib False short_file (result after_cut_file)"

text \<open>
  The UTF-8 text \<open>C3 A4 62\<close> (a-umlaut, b) with its selector byte \<open>0x15\<close>, decoded
  as one field, and decoded as two fields cut between \<open>C3\<close> and \<open>A4\<close>, each with its
  own selector byte, the second as a continuation.
\<close>

definition unsplit_text :: "state outcome" where
  "unsplit_text = dump_text demo_lib 0 4 False (buffer_state [0x15, 0xC3, 0xA4, 0x62])"

definition split_text_first :: "state outcome" where
  "split_text_first =
     dump_text demo_lib 0 2 False (buffer_state [0x15, 0xC3, 0x15, 0xA4, 0x62])"

definition split_text_second :: "state outcome" where
  "split_text_second = dump_text demo_lib 2 3 True (result split_text_first)"

text \<open>
  The same text cut at the same place with the selector byte on the first part only.
\<close>

definition raw_split_first :: "state outcome" where
  "raw_split_first = dump_text demo_lib 0 2 False (buffer_state [0x15, 0xC3, 0xA4, 0x62])"

definition raw_split_second :: "state outcome" where
  "raw_split_second = dump_text demo_lib 2 2 True (result raw_split_first)"

definition first_extended_bytes :: "byte list" where
  \<comment> \<open>an extended event descriptor, fragment 0 of 1: language \<open>deu\<close>, no items, text \<open>A\<close>\<close>
  "first_extended_bytes = [0x4E, 0x07, 0x01, 0x64, 0x65, 0x75, 0x00, 0x01, 0x41]"

definition first_extended_pass :: "(state \<times> int) outcome" where
  "first_extended_pass = descriptor_step demo_lib 9 (buffer_state first_extended_bytes) 0"

section \<open>Properties\<close>

subsection \<open>BCD triplets\<close>

text \<open>
  C7. With at least 3 bytes available the BCD triplet decoder returns 3 and the three
  digit pairs \<open>(byte >> 4) * 10 + (byte & 0x0F)\<close>, whatever their range; with fewer
  than 3 bytes it returns 0 and leaves the output structure as it was.
\<close>

theorem parse_duration_triplet:
  "(3 \<le> len \<longrightarrow>
      parse_duration p len s =
        (3, \<lparr>hour = int (unat (p 0) div 16) * 10 + int (unat (p 0) mod 16),
             minute = int (unat (p 1) div 16) * 10 + int (unat (p 1) mod 16),
             second = int (unat (p 2) div 16) * 10 + int (unat (p 2) mod 16)\<rparr>))
   \<and> (len < 3 \<longrightarrow> parse_duration p len s = (0, s))"
proof -
  have nib: "uint (drop_bit 4 b) = int (unat b div 16) \<and> uint (b AND 0x0F) = int (unat b mod 16)"
    for b :: byte
  proof
    show "uint (drop_bit 4 b) = int (unat b div 16)"
      by (simp add: drop_bit_eq_div uint_div zdiv_int)
    have "b AND 0x0F = take_bit 4 b"
      by (simp add: take_bit_eq_mask mask_eq_exp_minus_1)
    then show "uint (b AND 0x0F) = int (unat b mod 16)"
      by (simp add: take_bit_eq_mod uint_mod zmod_int)
  qed
  show ?thesis
    by (cases s) (simp add: parse_duration_def nib)
qed

theorem parse_duration_triplet_witness:
  "parse_duration (mem_of [0x99, 0x45, 0x30]) 3 \<lparr>hour = 1, minute = 2, second = 3\<rparr>
     = (3, \<lparr>hour = 99, minute = 45, second = 30\<rparr>)
   \<and> parse_duration (mem_of [0x99, 0x45]) 2 \<lparr>hour = 1, minute = 2, second = 3\<rparr>
     = (0, \<lparr>hour = 1, minute = 2, second = 3\<rparr>)"
  using parse_duration_triplet [of 3 "mem_of [0x99, 0x45, 0x30]" "\<lparr>hour = 1, minute = 2, second = 3\<rparr>"]
        parse_duration_triplet [of 2 "mem_of [0x99, 0x45]" "\<lparr>hour = 1, minute = 2, second = 3\<rparr>"]
  by (simp add: mem_of_def)

subsection \<open>The reference start time\<close>

text \<open>
  The exact values that \<open>parse_start_time\<close> truncates on the bytes C0 79 (day 49273)
  are each at least a quarter away from the next integer. The rounding of the C
  \<open>double\<close> operations is many orders of magnitude smaller, so at this input the
  exact model and the floating-point computation truncate to the same integers.
\<close>

lemma start_time_example_margins:
  "(93 + 1 / 4 :: rat) \<le> (of_int 49273 - 15078.2) / 365.25
   \<and> (of_int 49273 - 15078.2) / 365.25 \<le> (94 - 1 / 4 :: rat)
   \<and> (33968 + 1 / 4 :: rat) \<le> of_int 93 * 365.25
   \<and> of_int 93 * 365.25 \<le> (33969 - 1 / 4 :: rat)
   \<and> (11 + 1 / 4 :: rat) \<le> (of_int 49273 - 14956.1 - of_int 33968) / 30.6001
   \<and> (of_int 49273 - 14956.1 - of_int 33968) / 30.6001 \<le> (12 - 1 / 4 :: rat)
   \<and> (336 + 1 / 4 :: rat) \<le> of_int 11 * 30.6001
   \<and> of_int 11 * 30.6001 \<le> (337 - 1 / 4 :: rat)"
  by code_simp

text \<open>
  C6. On the bytes C0 79 12 45 00 \<open>parse_start_time\<close> yields year 93 (the year field
  counts from 1900, so 1993), month 10, day 13 and the time 12:45:00.
\<close>

theorem parse_start_time_example:
  "parse_start_time (mem_of [0xC0, 0x79, 0x12, 0x45, 0x00]) 5 s =
     (5, \<lparr>Y = 93, D = 13, M = 10, t = \<lparr>hour = 12, minute = 45, second = 0\<rparr>\<rparr>)
   \<and> 1900 + Y (snd (parse_start_time (mem_of [0xC0, 0x79, 0x12, 0x45, 0x00]) 5 s)) = 1993"
proof -
  have c1: "c_trunc ((of_int 49273 - 15078.2) / 365.25) = 93" by code_simp
  have c2: "c_trunc (of_int 93 * 365.25) = 33968" by code_simp
  have c3: "c_trunc ((of_int 49273 - 14956.1 - of_int 33968) / 30.6001) = 11" by code_simp
  have c4: "c_trunc (of_int 11 * 30.6001) = 336" by code_simp
  have mjd: "push_bit 8 (uint (0xC0 :: byte)) OR uint (0x79 :: byte) = 49273" by simp
  have m: "mem_of [0xC0, 0x79, 0x12, 0x45, 0x00] 0 = 0xC0"
          "mem_of [0xC0, 0x79, 0x12, 0x45, 0x00] 1 = 0x79"
    by (simp_all add: mem_of_def)
  have d: "parse_duration (\<lambda>k. mem_of [0xC0, 0x79, 0x12, 0x45, 0x00] (2 + k)) 3 d0 =
             (3, \<lparr>hour = 12, minute = 45, second = 0\<rparr>)" for d0
    by (cases d0) (simp add: parse_duration_def mem_of_def)
  have eq: "parse_start_time (mem_of [0xC0, 0x79, 0x12, 0x45, 0x00]) 5 s =
     (5, \<lparr>Y = 93, D = 13, M = 10, t = \<lparr>hour = 12, minute = 45, second = 0\<rparr>\<rparr>)"
    unfolding parse_start_time_def Let_def m mjd c1
    apply (simp only: c2 c3)
    apply (simp only: c4)
    apply (cases s)
    apply (simp add: d [simplified])
    done
  show ?thesis unfolding eq by simp
qed

subsection \<open>The JSON escaper\<close>

lemma sint_byte: "sint c = (if uint c < 128 then uint c else uint c - 256)" for c :: byte
proof -
  have b: "uint c < 256" using uint_bounded [of c] by simp
  have "128 + (uint c + 128) mod 256 = uint c" if h: "\<not> uint c < 128"
  proof -
    have "uint c + 128 = uint c - 128 + 256" by arith
    then have "(uint c + 128) mod 256 = (uint c - 128 + 256) mod 256" by (rule arg_cong)
    also have "\<dots> = (uint c - 128) mod 256" by (simp only: mod_add_self2)
    also have "\<dots> = uint c - 128" using b h by simp
    finally show ?thesis by simp
  qed
  with b show ?thesis
    by (simp add: sint_uint signed_take_bit_eq_take_bit_shift take_bit_eq_mod)
qed

lemma ctl_test: "(0 \<le> sint c \<and> sint c \<le> 0x1F) \<longleftrightarrow> c \<le> 0x1F" for c :: byte
  using uint_bounded [of c] by (auto simp: sint_byte word_le_def)

lemma radix16_byte:
  assumes "0 \<le> n" and "n < 256"
  shows "zero_pad 4 (radix_digits 16 n) =
           [CHR ''0'', CHR ''0'', digit_char (n div 16), digit_char (n mod 16)]"
proof (cases "n < 16")
  case True
  have r: "replicate 3 x = [x, x, x]" for x :: char by (simp add: numeral_3_eq_3)
  have z: "digit_char 0 = CHR ''0''" by code_simp
  from True assms show ?thesis by (simp add: zero_pad_def r z radix_digits.simps)
next
  case False
  from assms have d: "n div 16 < 16" by simp
  have r: "replicate 2 x = [x, x]" for x :: char by (simp add: numeral_2_eq_2)
  have "radix_digits 16 n = [digit_char (n div 16), digit_char (n mod 16)]"
    using False d by (simp add: radix_digits.simps [of 16 n] radix_digits.simps [of 16 "n div 16"])
  then show ?thesis by (simp add: zero_pad_def r)
qed

lemma fmt_04x_small:
  fixes c :: byte
  assumes "uint c < 128"
  shows "fmt_04x (sint c) =
           [CHR ''0'', CHR ''0'', digit_char (uint c div 16), digit_char (uint c mod 16)]"
proof -
  have s: "sint c = uint c" using assms by (simp add: sint_byte)
  have u: "0 \<le> uint c" "uint c < 256" using assms by simp_all
  have n: "uint c mod 2 ^ 32 = uint c"
    using assms by (intro mod_pos_pos_trivial) simp_all
  show ?thesis unfolding fmt_04x_def s n by (rule radix16_byte [OF u])
qed

lemma esc_cond: "c = 0x22 \<or> c = 0x5C \<or> c \<le> 0x1F \<Longrightarrow> uint c < 128" for c :: byte
  by (auto simp: word_le_def)

lemma nonzero_ctl: "c \<noteq> 0 \<Longrightarrow> (0x01 \<le> c \<and> c \<le> 0x1F) \<longleftrightarrow> c \<le> 0x1F" for c :: byte
proof -
  assume "c \<noteq> 0"
  then have "uint c \<noteq> 0" by (simp add: uint_0_iff)
  moreover have "0 \<le> uint c" by simp
  ultimately have "1 \<le> uint c" by linarith
  then have "1 \<le> c" by (simp add: word_le_def)
  then show ?thesis by simp
qed

lemma esc_eq:
  assumes "c \<noteq> 0"
  shows "(if c = 0x22 \<or> c = 0x5C \<or> (0 \<le> sint c \<and> sint c \<le> 0x1F)
          then [CHR 0x5C, CHR ''u''] @ fmt_04x (sint c)
          else [fmt_c c]) = json_escape_char c"
proof (cases "c = 0x22 \<or> c = 0x5C \<or> c \<le> 0x1F")
  case True
  then have 1: "c = 0x22 \<or> c = 0x5C \<or> (0 \<le> sint c \<and> sint c \<le> 0x1F)"
    by (simp only: ctl_test)
  from True have 3: "c = 0x22 \<or> c = 0x5C \<or> (0x01 \<le> c \<and> c \<le> 0x1F)"
    by (simp only: nonzero_ctl [OF assms])
  have 2: "fmt_04x (sint c) =
             [CHR ''0'', CHR ''0'', digit_char (uint c div 16), digit_char (uint c mod 16)]"
    by (rule fmt_04x_small [OF esc_cond [OF True]])
  show ?thesis
    by (simp only: 1 3 if_True json_escape_char_def 2 append_Cons append_Nil)
next
  case False
  then have 1: "\<not> (c = 0x22 \<or> c = 0x5C \<or> (0 \<le> sint c \<and> sint c \<le> 0x1F))"
    by (simp only: ctl_test simp_thms)
  from False have 3: "\<not> (c = 0x22 \<or> c = 0x5C \<or> (0x01 \<le> c \<and> c \<le> 0x1F))"
    by (simp only: nonzero_ctl [OF assms] simp_thms)
  show ?thesis
    by (simp only: 1 3 if_False json_escape_char_def)
qed

lemma esc_step:
  assumes "c \<noteq> 0"
  shows "print_JSON_escaped (c # p) = json_escape_char c @ print_JSON_escaped p"
  using assms by (simp only: print_JSON_escaped.simps esc_eq [OF assms] if_False)

text \<open>
  C8, as the program has it. The escaper prints the characters of its argument up to the
  first NUL byte, which ends the string: each is printed as it is, except that a double
  quote, a backslash and the control characters \<open>0x01\<close> to \<open>0x1F\<close> are printed as
  \<open>\u00XX\<close>. A byte \<open>0x00\<close> is never printed as \<open>\u0000\<close>: nothing is printed for
  it, nor for anything that follows it. The result is a function of the argument alone:
  nothing is kept between calls.
\<close>

theorem print_JSON_escaped_chars:
  "print_JSON_escaped s = concat (map json_escape_char (takeWhile (\<lambda>c. c \<noteq> 0) s))
   \<and> print_JSON_escaped (0 # rest) = []"
proof
  show "print_JSON_escaped s = concat (map json_escape_char (takeWhile (\<lambda>c. c \<noteq> 0) s))"
  proof (induction s)
    case Nil
    show ?case by simp
  next
    case (Cons c s)
    show ?case
    proof (cases "c = 0")
      case True
      then show ?thesis by simp
    next
      case False
      with Cons.IH show ?thesis
        by (simp add: esc_step del: print_JSON_escaped.simps)
    qed
  qed
  show "print_JSON_escaped (0 # rest) = []" by simp
qed

theorem print_JSON_escaped_chars_witness:
  "print_JSON_escaped [0x41, 0x22, 0x5C, 0x0A, 0x1F, 0x20, 0x7F, 0xE4, 0x00, 0x42]
     = ''A'' @ [CHR 0x5C] @ ''u0022'' @ [CHR 0x5C] @ ''u005c'' @ [CHR 0x5C] @ ''u000a''
       @ [CHR 0x5C] @ ''u001f'' @ '' '' @ [CHR 0x7F, CHR 0xE4]
   \<and> print_JSON_escaped (0 # [0x42]) = []"
proof -
  have e: "concat (map json_escape_char
             (takeWhile (\<lambda>c. c \<noteq> 0) [0x41, 0x22, 0x5C, 0x0A, 0x1F, 0x20, 0x7F, 0xE4, 0x00, 0x42]))
           = ''A'' @ [CHR 0x5C] @ ''u0022'' @ [CHR 0x5C] @ ''u005c'' @ [CHR 0x5C] @ ''u000a''
             @ [CHR 0x5C] @ ''u001f'' @ '' '' @ [CHR 0x7F, CHR 0xE4]"
    by code_simp
  from print_JSON_escaped_chars [of "[0x41, 0x22, 0x5C, 0x0A, 0x1F, 0x20, 0x7F, 0xE4, 0x00, 0x42]" "[0x42]"]
  show ?thesis unfolding e .
qed

text \<open>
  C8 as stated fails for the character \<open>0x00\<close>. The three bytes 41 00 42 are not printed
  as \<open>A\u0000B\<close>: the escaper prints \<open>A\<close> and stops. So does a text field with these
  three bytes, which the conversion from ISO-8859-1 hands to the escaper unchanged.
\<close>

theorem print_JSON_escaped_chars_counterexample:
  "print_JSON_escaped [0x41, 0x00, 0x42] = ''A''
   \<and> print_JSON_escaped [0x41, 0x00, 0x42] \<noteq> ''A'' @ [CHR 0x5C] @ ''u0000'' @ ''B''
   \<and> is_Return (dump_text demo_lib 0 3 False (buffer_state [0x41, 0x00, 0x42]))
   \<and> out (result (dump_text demo_lib 0 3 False (buffer_state [0x41, 0x00, 0x42]))) = ''A''"
  by code_simp

subsection \<open>Running status\<close>

text \<open>
  C9. The running status is meant to range over eight values. The program masks the
  header byte with \<open>0x03\<close>, so the value it prints is always one of 0, 1, 2, 3; a header
  byte whose three top bits say 4 (running) gives 0.
\<close>

theorem running_status_at_most_3:
  "uint (running_status p) \<le> 3 \<and> running_status (mem_of [0x80, 0x00]) = 0"
proof
  have "running_status p \<le> 3"
    unfolding running_status_def by (rule word_and_le1)
  then show "uint (running_status p) \<le> 3"
    by (simp add: word_le_def)
  show "running_status (mem_of [0x80, 0x00]) = 0"
    by (simp add: running_status_def mem_of_def)
qed

subsection \<open>Facts about the text decoder and the loop body\<close>

lemma emit_fields [simp]:
  "buf (emit s st) = buf st" "bytes_left (emit s st) = bytes_left st"
  "shortevent_count (emit s st) = shortevent_count st" "out (emit s st) = out st @ s"
  by (simp_all add: emit_def)

lemma prepend_fields:
  "prepend_bytes_left a p st = (p', st') \<Longrightarrow>
     shortevent_count st' = shortevent_count st \<and> out st' = out st \<and> bytes_left st' = None"
  by (auto simp: prepend_bytes_left_def Let_def split: option.splits if_splits)

lemma prepend_no_append:
  "prepend_bytes_left False p st = (p, st\<lparr>bytes_left := None\<rparr>)"
  by (simp add: prepend_bytes_left_def split: option.splits)

lemma dump_text_count:
  "dump_text L p len a st = Return st' \<Longrightarrow> shortevent_count st' = shortevent_count st"
  by (auto simp: dump_text_def and_then_def Let_def dest!: prepend_fields
      split: outcome.splits prod.splits option.splits if_splits)

lemma dump_text_out:
  "dump_text L p len a st = Return st' \<Longrightarrow> \<exists>txt. out st' = out st @ txt"
  by (auto simp: dump_text_def and_then_def Let_def dest!: prepend_fields
      split: outcome.splits prod.splits option.splits if_splits)

lemma dump_text_buf:
  "dump_text L p len False st = Return st' \<Longrightarrow> buf st' = buf st"
  by (auto simp: dump_text_def and_then_def Let_def prepend_no_append
      split: outcome.splits prod.splits option.splits if_splits)

lemma dump_text_keeps:
  "dump_text L p len False st = Return st' \<Longrightarrow>
     buf st' = buf st \<and> shortevent_count st' = shortevent_count st"
  by (simp add: dump_text_buf dump_text_count)

lemma short_event_branch_result:
  assumes "short_event_branch L st q = Return (st', q')"
  shows "q' = q + 5 + uint (buf st (q + 3)) + uint (buf st (q + 4 + uint (buf st (q + 3))))
         \<and> shortevent_count st' = shortevent_count st + 1"
  using assms
  by (auto simp: short_event_branch_def and_then_def Let_def add_ac dest!: dump_text_keeps
      split: outcome.splits)

lemma extended_event_branch_result:
  assumes "extended_event_branch L st q = Return (st', q')"
  shows "q' = q + 6 + uint (buf st (q + 5)) \<and> buf st (q + 4) = 0
         \<and> shortevent_count st' = shortevent_count st"
  using assms
  by (auto simp: extended_event_branch_def and_then_def Let_def add_ac word_gt_0
      dest!: dump_text_count split: outcome.splits if_splits)

lemma component_branch_result:
  "component_branch l st q = Return (st, q + uint l)"
  unfolding component_branch_def Let_def sint_component_len by simp

lemma tags_distinct:
  "SHORT_EVENT_DESCRIPTOR \<noteq> EXTENDED_EVENT_DESCRIPTOR"
  "SHORT_EVENT_DESCRIPTOR \<noteq> COMPONENT_DESCRIPTOR"
  "EXTENDED_EVENT_DESCRIPTOR \<noteq> COMPONENT_DESCRIPTOR"
  by (simp_all add: SHORT_EVENT_DESCRIPTOR_def EXTENDED_EVENT_DESCRIPTOR_def
        COMPONENT_DESCRIPTOR_def)

lemma outcome_pair_collapse:
  "is_Return r \<and> snd (result r) = q \<Longrightarrow> r = Return (fst (result r), q)"
  by (cases r) auto

lemma outcome_exit_collapse:
  "is_Exit r \<and> status r = c \<Longrightarrow> r = Exit c"
  by (cases r) auto

subsection \<open>How far a pass of the loop moves the cursor\<close>

text \<open>
  C3, as the program has it. A pass that returns moves the cursor by at least the two
  header bytes. A component descriptor moves it by 2 plus the declared length. A short
  event descriptor moves it by 2 + 5 + name length + text length and an extended event
  descriptor by 2 + 6 + text length, whatever the declared length says. Any other tag
  moves it by 2 only, and the pass returns only when those two bytes end the record.
\<close>

theorem descriptor_step_cursor:
  assumes "descriptor_step L num st p = Return (st', p')"
  shows "p + 2 \<le> p'
     \<and> (buf st p = SHORT_EVENT_DESCRIPTOR \<longrightarrow>
          p' = p + 2 + (5 + uint (buf st (p + 5)) + uint (buf st (p + 6 + uint (buf st (p + 5))))))
     \<and> (buf st p = EXTENDED_EVENT_DESCRIPTOR \<longrightarrow> p' = p + 2 + (6 + uint (buf st (p + 7))))
     \<and> (buf st p = COMPONENT_DESCRIPTOR \<longrightarrow> p' = p + 2 + uint (buf st (p + 1)))
     \<and> (buf st p \<noteq> SHORT_EVENT_DESCRIPTOR \<and> buf st p \<noteq> EXTENDED_EVENT_DESCRIPTOR
          \<and> buf st p \<noteq> COMPONENT_DESCRIPTOR \<longrightarrow> p' = p + 2 \<and> int num \<le> p + 2)"
proof -
  consider (s) "buf st p = SHORT_EVENT_DESCRIPTOR"
    | (e) "buf st p = EXTENDED_EVENT_DESCRIPTOR"
    | (c) "buf st p = COMPONENT_DESCRIPTOR"
    | (u) "buf st p \<noteq> SHORT_EVENT_DESCRIPTOR" "buf st p \<noteq> EXTENDED_EVENT_DESCRIPTOR"
          "buf st p \<noteq> COMPONENT_DESCRIPTOR"
    by blast
  then show ?thesis
  proof cases
    case s
    with assms have "short_event_branch L st (p + 2) = Return (st', p')"
      by (simp add: descriptor_step_def Let_def)
    from short_event_branch_result [OF this] s tags_distinct show ?thesis
      by (simp add: add_ac)
  next
    case e
    with assms tags_distinct have "extended_event_branch L st (p + 2) = Return (st', p')"
      by (simp add: descriptor_step_def Let_def)
    from extended_event_branch_result [OF this] e tags_distinct show ?thesis
      by (simp add: add_ac)
  next
    case c
    with assms tags_distinct
    have "component_branch (buf st (p + 1)) st (p + 2) = Return (st', p')"
      by (simp add: descriptor_step_def Let_def)
    with c tags_distinct show ?thesis
      by (auto simp: component_branch_result)
  next
    case u
    with assms show ?thesis
      by (auto simp: descriptor_step_def Let_def split: if_splits)
  qed
qed

theorem descriptor_step_cursor_witness:
  "short_event_pass = Return (fst (result short_event_pass), 9)
   \<and> buf (buffer_state short_event_bytes) 0 = SHORT_EVENT_DESCRIPTOR
   \<and> (9 :: int) = 0 + 2 + (5 + uint (buf (buffer_state short_event_bytes) 5)
            + uint (buf (buffer_state short_event_bytes)
                      (6 + uint (buf (buffer_state short_event_bytes) 5))))
   \<and> continued_extended_pass = Return (fst (result continued_extended_pass), 8)
   \<and> buf (buffer_state continued_extended_bytes) 0 = EXTENDED_EVENT_DESCRIPTOR
   \<and> (8 :: int) = 0 + 2 + (6 + uint (buf (buffer_state continued_extended_bytes) 7))
   \<and> component_pass = Return (fst (result component_pass), 4)
   \<and> buf (buffer_state [0x50, 0x02, 0x11, 0x22]) 0 = COMPONENT_DESCRIPTOR
   \<and> (4 :: int) = 0 + 2 + uint (buf (buffer_state [0x50, 0x02, 0x11, 0x22]) 1)
   \<and> final_unknown_pass = Return (fst (result final_unknown_pass), 2)
   \<and> buf (buffer_state unknown_tag_bytes) 0 \<noteq> SHORT_EVENT_DESCRIPTOR
   \<and> buf (buffer_state unknown_tag_bytes) 0 \<noteq> EXTENDED_EVENT_DESCRIPTOR
   \<and> buf (buffer_state unknown_tag_bytes) 0 \<noteq> COMPONENT_DESCRIPTOR
   \<and> (2 :: int) = 0 + 2 \<and> int 2 \<le> 0 + 2"
proof -
  have s: "is_Return short_event_pass \<and> snd (result short_event_pass) = 9"
    unfolding short_event_pass_def by code_simp
  have e: "is_Return continued_extended_pass \<and> snd (result continued_extended_pass) = 8"
    unfolding continued_extended_pass_def by code_simp
  have c: "is_Return component_pass \<and> snd (result component_pass) = 4"
    unfolding component_pass_def by code_simp
  have u: "is_Return final_unknown_pass \<and> snd (result final_unknown_pass) = 2"
    unfolding final_unknown_pass_def by code_simp
  note hs = outcome_pair_collapse [OF s] and he = outcome_pair_collapse [OF e]
    and hc = outcome_pair_collapse [OF c] and hu = outcome_pair_collapse [OF u]
  have ts: "buf (buffer_state short_event_bytes) 0 = SHORT_EVENT_DESCRIPTOR" by code_simp
  have te: "buf (buffer_state continued_extended_bytes) 0 = EXTENDED_EVENT_DESCRIPTOR"
    by code_simp
  have tc: "buf (buffer_state [0x50, 0x02, 0x11, 0x22]) 0 = COMPONENT_DESCRIPTOR" by code_simp
  have tu: "buf (buffer_state unknown_tag_bytes) 0 \<noteq> SHORT_EVENT_DESCRIPTOR"
    "buf (buffer_state unknown_tag_bytes) 0 \<noteq> EXTENDED_EVENT_DESCRIPTOR"
    "buf (buffer_state unknown_tag_bytes) 0 \<noteq> COMPONENT_DESCRIPTOR"
    by code_simp+
  from descriptor_step_cursor [OF hs [unfolded short_event_pass_def]]
       descriptor_step_cursor [OF he [unfolded continued_extended_pass_def]]
       descriptor_step_cursor [OF hc [unfolded component_pass_def]]
       descriptor_step_cursor [OF hu [unfolded final_unknown_pass_def]]
       hs he hc hu ts te tc tu
  show ?thesis by simp
qed

text \<open>
  C3 as stated fails: the short event descriptor of \<open>padded_short_event_bytes\<close> declares
  32 bytes, and the pass over it moves the cursor from 0 to 7, not to 34 or beyond.
\<close>

theorem descriptor_step_cursor_counterexample:
  "is_Return padded_short_event_pass
   \<and> snd (result padded_short_event_pass) = 7
   \<and> uint (buf (buffer_state padded_short_event_bytes) 1) = 32
   \<and> \<not> (0 + 2 + uint (buf (buffer_state padded_short_event_bytes) 1)
          \<le> snd (result padded_short_event_pass))"
proof -
  have "is_Return padded_short_event_pass \<and> snd (result padded_short_event_pass) = 7"
    unfolding padded_short_event_pass_def by code_simp
  moreover have "uint (buf (buffer_state padded_short_event_bytes) 1) = 32" by code_simp
  ultimately show ?thesis by simp
qed

subsection \<open>The short event counter\<close>

lemma descriptor_step_count:
  assumes "descriptor_step L num st p = Return (st', p')"
  shows "shortevent_count st' =
           shortevent_count st + (if buf st p = SHORT_EVENT_DESCRIPTOR then 1 else 0)"
proof -
  consider (s) "buf st p = SHORT_EVENT_DESCRIPTOR"
    | (e) "buf st p = EXTENDED_EVENT_DESCRIPTOR"
    | (c) "buf st p = COMPONENT_DESCRIPTOR"
    | (u) "buf st p \<noteq> SHORT_EVENT_DESCRIPTOR" "buf st p \<noteq> EXTENDED_EVENT_DESCRIPTOR"
          "buf st p \<noteq> COMPONENT_DESCRIPTOR"
    by blast
  then show ?thesis
  proof cases
    case s
    with assms have "short_event_branch L st (p + 2) = Return (st', p')"
      by (simp add: descriptor_step_def Let_def)
    from short_event_branch_result [OF this] s show ?thesis by simp
  next
    case e
    with assms tags_distinct have "extended_event_branch L st (p + 2) = Return (st', p')"
      by (simp add: descriptor_step_def Let_def)
    from extended_event_branch_result [OF this] e tags_distinct show ?thesis by simp
  next
    case c
    with assms tags_distinct
    have "component_branch (buf st (p + 1)) st (p + 2) = Return (st', p')"
      by (simp add: descriptor_step_def Let_def)
    with c tags_distinct show ?thesis by (auto simp: component_branch_result)
  next
    case u
    with assms show ?thesis
      by (auto simp: descriptor_step_def Let_def split: if_splits)
  qed
qed

lemma descriptor_loop_count:
  "descriptor_loop L num st p = Return (st', p') \<Longrightarrow>
     shortevent_count st' =
       shortevent_count st + int (count_list (walked_tags L num st p) SHORT_EVENT_DESCRIPTOR)"
proof (induction L num st p rule: descriptor_loop.induct)
  case (1 L num st p)
  show ?case
  proof (cases "p < int num")
    case False
    then have "walked_tags L num st p = []"
      by (simp add: walked_tags.simps [of L num st p])
    with False "1.prems" show ?thesis
      by (simp add: descriptor_loop.simps [of L num st p])
  next
    case True
    with "1.prems" obtain st1 p1 where
      step: "descriptor_step L num st p = Return (st1, p1)"
      and loop: "descriptor_loop L num st1 p1 = Return (st', p')"
      by (auto simp: descriptor_loop.simps [of L num st p] split: outcome.splits)
    from "1.IH" [OF True step refl loop]
    have "shortevent_count st' = shortevent_count st1
            + int (count_list (walked_tags L num st1 p1) SHORT_EVENT_DESCRIPTOR)" .
    with descriptor_step_count [OF step] True step show ?thesis
      by (simp add: walked_tags.simps [of L num st p])
  qed
qed

lemma file_header_keeps:
  "file_header f st = Return (num, st1, p) \<Longrightarrow>
     shortevent_count st1 = shortevent_count st \<and> bytes_left st1 = bytes_left st"
  by (auto simp: file_header_def Let_def split: option.splits if_splits prod.splits)

lemma file_trailer_keeps [simp]:
  "shortevent_count (file_trailer m st) = shortevent_count st"
  "bytes_left (file_trailer m st) = bytes_left st"
  by (simp_all add: file_trailer_def Let_def)

lemma process_file_count:
  assumes "process_file L m f st = Return st'"
  shows "shortevent_count st' =
           shortevent_count st + int (count_list (file_tags L f st) SHORT_EVENT_DESCRIPTOR)"
proof -
  from assms obtain num st1 p st2 p2 where
    h: "file_header f st = Return (num, st1, p)"
    and l: "descriptor_loop L num st1 p = Return (st2, p2)"
    and t: "st' = file_trailer m st2"
    by (auto simp: process_file_def and_then_def split: outcome.splits)
  from descriptor_loop_count [OF l] file_header_keeps [OF h] h t show ?thesis
    by (simp add: file_tags_def)
qed

lemma files_loop_count:
  "files_loop L fs st = Return st' \<Longrightarrow>
     shortevent_count st' =
       shortevent_count st + int (count_list (run_tags L fs st) SHORT_EVENT_DESCRIPTOR)"
proof (induction fs arbitrary: st)
  case Nil
  then show ?case by simp
next
  case (Cons f fs)
  from Cons.prems obtain st1 where
    p: "process_file L (fs \<noteq> []) f st = Return st1"
    and r: "files_loop L fs st1 = Return st'"
    by (auto simp: and_then_def split: outcome.splits)
  from Cons.IH [OF r] process_file_count [OF p] p show ?case by simp
qed

lemma short_event_key:
  assumes "short_event_branch L st q = Return (st', q')"
  shows "\<exists>rest. out st' = out st @ ''  '' @ DQ @ ''short_event_descriptor_''
                   @ fmt_i (shortevent_count st + 1) @ DQ @ '':\<newline>  {\<newline>'' @ rest"
  using assms
  by (auto simp: short_event_branch_def and_then_def Let_def
      dest!: dump_text_out split: outcome.splits)

lemma digit_char_value:
  assumes "0 \<le> d" and "d < 10"
  shows "(of_char (digit_char d) :: int) = 48 + d"
proof -
  from assms have "(48 + d) mod 256 = 48 + d" by simp
  with assms show ?thesis by (simp add: digit_char_def)
qed

lemma read_digits_append:
  "read_digits a (xs @ ys) =
     (case read_digits a xs of None \<Rightarrow> None | Some b \<Rightarrow> read_digits b ys)"
  by (induction xs arbitrary: a) simp_all

lemma read_digits_radix:
  assumes "0 \<le> n"
  shows "read_digits 0 (radix_digits 10 n) = Some n \<and> radix_digits 10 n \<noteq> []"
  using assms
proof (induction "10 :: int" n rule: radix_digits.induct)
  case (1 n)
  show ?case
  proof (cases "n < 10")
    case True
    with "1.prems" show ?thesis
      by (simp add: radix_digits.simps [of 10 n] digit_char_value)
  next
    case False
    then have h: "\<not> (n < 10 \<or> (10 :: int) < 2)" by simp
    from "1.prems" have d: "0 \<le> n div 10" by simp
    have m: "0 \<le> n mod 10" "n mod 10 < 10" by simp_all
    from "1.hyps" [OF h d] have "read_digits 0 (radix_digits 10 (n div 10)) = Some (n div 10)"
      by simp
    with False m show ?thesis
      by (simp add: radix_digits.simps [of 10 n] read_digits_append digit_char_value)
  qed
qed

lemma read_decimal_fmt_i: "0 \<le> n \<Longrightarrow> read_decimal (fmt_i n) = Some n"
  using read_digits_radix [of n] by (simp add: read_decimal_def fmt_i_def)

text \<open>
  C10. \<open>shortevent_count\<close> starts at 0 when the program starts. A pass of the loop
  adds exactly 1 to it when the tag is that of a short event descriptor and leaves it
  alone otherwise. The key printed for a short event descriptor is
  \<open>short_event_descriptor_\<close> followed by the new value in decimal, which reads back as
  that value, so different values print different keys. Nothing resets the counter:
  after a run over several files it has grown by the number of short event descriptors
  met in all of them. In a run over two files with one short event descriptor each, the
  first file prints the key \<open>short_event_descriptor_1\<close> and the second the key
  \<open>short_event_descriptor_2\<close>.
\<close>

theorem shortevent_count_never_reset:
  "shortevent_count initial_state = 0
   \<and> (descriptor_step L num st p = Return (st', p') \<longrightarrow>
        shortevent_count st' =
          shortevent_count st + (if buf st p = SHORT_EVENT_DESCRIPTOR then 1 else 0))
   \<and> (short_event_branch L st q = Return (st', q') \<longrightarrow>
        (\<exists>rest. out st' = out st @ ''  '' @ DQ @ ''short_event_descriptor_''
                   @ fmt_i (shortevent_count st + 1) @ DQ @ '':\<newline>  {\<newline>'' @ rest))
   \<and> (0 \<le> n \<longrightarrow> read_decimal (fmt_i n) = Some n)
   \<and> (files_loop L fs st = Return st'' \<longrightarrow>
        shortevent_count st'' =
          shortevent_count st + int (count_list (run_tags L fs st) SHORT_EVENT_DESCRIPTOR))"
  using descriptor_step_count [of L num st p st' p'] short_event_key [of L st q st' q']
    files_loop_count [of L fs st st''] read_decimal_fmt_i [of n]
  by (simp add: initial_state_def)

theorem shortevent_count_never_reset_witness:
  "short_event_pass = Return (fst (result short_event_pass), 9)
   \<and> buf (buffer_state short_event_bytes) 0 = SHORT_EVENT_DESCRIPTOR
   \<and> shortevent_count (fst (result short_event_pass))
       = shortevent_count (buffer_state short_event_bytes) + 1
   \<and> short_event_run = Return (fst (result short_event_run), snd (result short_event_run))
   \<and> (\<exists>rest. out (fst (result short_event_run)) =
          out (buffer_state short_event_bytes) @ ''  '' @ DQ @ ''short_event_descriptor_''
            @ fmt_i (shortevent_count (buffer_state short_event_bytes) + 1)
            @ DQ @ '':\<newline>  {\<newline>'' @ rest)
   \<and> (0 :: int) \<le> 2 \<and> read_decimal (fmt_i 2) = Some 2 \<and> fmt_i 2 = ''2''
   \<and> files_loop demo_lib two_short_event_files initial_state
       = Return (result (files_loop demo_lib two_short_event_files initial_state))
   \<and> count_list (run_tags demo_lib two_short_event_files initial_state)
         SHORT_EVENT_DESCRIPTOR = 2
   \<and> shortevent_count (result (files_loop demo_lib two_short_event_files initial_state)) = 2
   \<and> out (result (files_loop demo_lib two_short_event_files initial_state)) =
         '' {\<newline>''
       @ ''  '' @ quoted ''filename'' @ '': '' @ quoted ''a.eit'' @ '',\<newline>''
       @ ''  '' @ quoted ''event_id'' @ '': 4660,\<newline>''
       @ ''  '' @ quoted ''start_time'' @ '': '' @ quoted ''93/10/13 12:45:00'' @ '',\<newline>''
       @ ''  '' @ quoted ''duration'' @ '': '' @ quoted ''01:30:00'' @ '',\<newline>''
       @ ''  '' @ quoted ''running_status'' @ '': 0,\<newline>''
       @ ''  '' @ quoted ''free_CA_mode'' @ '': 0,\<newline>''
       @ ''  '' @ quoted ''short_event_descriptor_1'' @ '':\<newline>''
       @ ''  {\<newline>''
       @ ''    '' @ quoted ''iso_639_2_language_code'' @ '': '' @ quoted ''deu'' @ '',\<newline>''
       @ ''    '' @ quoted ''event_name'' @ '': '' @ quoted ''A'' @ '',\<newline>''
       @ ''    '' @ quoted ''text'' @ '': '' @ quoted ''B'' @ ''\<newline>''
       @ ''  },\<newline>''
       @ ''  '' @ quoted ''empty_structure'' @ '':\<newline>''
       @ ''  {\<newline>''
       @ ''    '' @ quoted ''dummy'' @ '': '' @ quoted ''nix'' @ '' \<newline>''
       @ ''  }\<newline>''
       @ '' },\<newline>''
       @ '' {\<newline>''
       @ ''  '' @ quoted ''filename'' @ '': '' @ quoted ''b.eit'' @ '',\<newline>''
       @ ''  '' @ quoted ''event_id'' @ '': 4660,\<newline>''
       @ ''  '' @ quoted ''start_time'' @ '': '' @ quoted ''93/10/13 12:45:00'' @ '',\<newline>''
       @ ''  '' @ quoted ''duration'' @ '': '' @ quoted ''01:30:00'' @ '',\<newline>''
       @ ''  '' @ quoted ''running_status'' @ '': 0,\<newline>''
       @ ''  '' @ quoted ''free_CA_mode'' @ '': 0,\<newline>''
       @ ''  '' @ quoted ''short_event_descriptor_2'' @ '':\<newline>''
       @ ''  {\<newline>''
       @ ''    '' @ quoted ''iso_639_2_language_code'' @ '': '' @ quoted ''deu'' @ '',\<newline>''
       @ ''    '' @ quoted ''event_name'' @ '': '' @ quoted ''A'' @ '',\<newline>''
       @ ''    '' @ quoted ''text'' @ '': '' @ quoted ''B'' @ ''\<newline>''
       @ ''  },\<newline>''
       @ ''  '' @ quoted ''empty_structure'' @ '':\<newline>''
       @ ''  {\<newline>''
       @ ''    '' @ quoted ''dummy'' @ '': '' @ quoted ''nix'' @ '' \<newline>''
       @ ''  }\<newline>''
       @ '' }\<newline>''"
proof -
  have s: "is_Return short_event_pass \<and> snd (result short_event_pass) = 9"
    unfolding short_event_pass_def by code_simp
  note hs = outcome_pair_collapse [OF s]
  have ts: "buf (buffer_state short_event_bytes) 0 = SHORT_EVENT_DESCRIPTOR" by code_simp
  have "is_Return short_event_run"
    unfolding short_event_run_def by code_simp
  then have hb: "short_event_run = Return (fst (result short_event_run), snd (result short_event_run))"
    by (cases short_event_run) auto
  have "is_Return (files_loop demo_lib two_short_event_files initial_state)"
    unfolding two_short_event_files_def by code_simp
  then have hf: "files_loop demo_lib two_short_event_files initial_state
       = Return (result (files_loop demo_lib two_short_event_files initial_state))"
    by simp
  have n: "count_list (run_tags demo_lib two_short_event_files initial_state)
             SHORT_EVENT_DESCRIPTOR = 2"
    unfolding two_short_event_files_def by code_simp
  have i: "shortevent_count initial_state = 0" by (simp add: initial_state_def)
  have z: "(0 :: int) \<le> 2" by simp
  have k: "fmt_i 2 = ''2''" by code_simp
  have o: "out (result (files_loop demo_lib two_short_event_files initial_state)) =
         '' {\<newline>''
       @ ''  '' @ quoted ''filename'' @ '': '' @ quoted ''a.eit'' @ '',\<newline>''
       @ ''  '' @ quoted ''event_id'' @ '': 4660,\<newline>''
       @ ''  '' @ quoted ''start_time'' @ '': '' @ quoted ''93/10/13 12:45:00'' @ '',\<newline>''
       @ ''  '' @ quoted ''duration'' @ '': '' @ quoted ''01:30:00'' @ '',\<newline>''
       @ ''  '' @ quoted ''running_status'' @ '': 0,\<newline>''
       @ ''  '' @ quoted ''free_CA_mode'' @ '': 0,\<newline>''
       @ ''  '' @ quoted ''short_event_descriptor_1'' @ '':\<newline>''
       @ ''  {\<newline>''
       @ ''    '' @ quoted ''iso_639_2_language_code'' @ '': '' @ quoted ''deu'' @ '',\<newline>''
       @ ''    '' @ quoted ''event_name'' @ '': '' @ quoted ''A'' @ '',\<newline>''
       @ ''    '' @ quoted ''text'' @ '': '' @ quoted ''B'' @ ''\<newline>''
       @ ''  },\<newline>''
       @ ''  '' @ quoted ''empty_structure'' @ '':\<newline>''
       @ ''  {\<newline>''
       @ ''    '' @ quoted ''dummy'' @ '': '' @ quoted ''nix'' @ '' \<newline>''
       @ ''  }\<newline>''
       @ '' },\<newline>''
       @ '' {\<newline>''
       @ ''  '' @ quoted ''filename'' @ '': '' @ quoted ''b.eit'' @ '',\<newline>''
       @ ''  '' @ quoted ''event_id'' @ '': 4660,\<newline>''
       @ ''  '' @ quoted ''start_time'' @ '': '' @ quoted ''93/10/13 12:45:00'' @ '',\<newline>''
       @ ''  '' @ quoted ''duration'' @ '': '' @ quoted ''01:30:00'' @ '',\<newline>''
       @ ''  '' @ quoted ''running_status'' @ '': 0,\<newline>''
       @ ''  '' @ quoted ''free_CA_mode'' @ '': 0,\<newline>''
       @ ''  '' @ quoted ''short_event_descriptor_2'' @ '':\<newline>''
       @ ''  {\<newline>''
       @ ''    '' @ quoted ''iso_639_2_language_code'' @ '': '' @ quoted ''deu'' @ '',\<newline>''
       @ ''    '' @ quoted ''event_name'' @ '': '' @ quoted ''A'' @ '',\<newline>''
       @ ''    '' @ quoted ''text'' @ '': '' @ quoted ''B'' @ ''\<newline>''
       @ ''  },\<newline>''
       @ ''  '' @ quoted ''empty_structure'' @ '':\<newline>''
       @ ''  {\<newline>''
       @ ''    '' @ quoted ''dummy'' @ '': '' @ quoted ''nix'' @ '' \<newline>''
       @ ''  }\<newline>''
       @ '' }\<newline>''"
    unfolding two_short_event_files_def by code_simp
  note T1 = shortevent_count_never_reset [where L = demo_lib and num = 9
         and st = "buffer_state short_event_bytes" and p = 0
         and st' = "fst (result short_event_pass)" and p' = 9 and n = 2,
         folded short_event_pass_def]
  note T3 = shortevent_count_never_reset [where L = demo_lib and st = initial_state
         and fs = two_short_event_files and st'' =
           "result (files_loop demo_lib two_short_event_files initial_state)"]
  note T2 = shortevent_count_never_reset [where L = demo_lib
         and st = "buffer_state short_event_bytes" and q = 2
         and st' = "fst (result short_event_run)" and q' = "snd (result short_event_run)",
         folded short_event_run_def]
  have c2: "shortevent_count (fst (result short_event_pass))
              = shortevent_count (buffer_state short_event_bytes) + 1"
    using T1 [THEN conjunct2, THEN conjunct1, rule_format, OF hs] ts by simp
  note c3 = T2 [THEN conjunct2, THEN conjunct2, THEN conjunct1, rule_format, OF hb]
  note c4 = T1 [THEN conjunct2, THEN conjunct2, THEN conjunct2, THEN conjunct1, rule_format, OF z]
  have c5: "shortevent_count (result (files_loop demo_lib two_short_event_files initial_state)) = 2"
    using T3 [THEN conjunct2, THEN conjunct2, THEN conjunct2, THEN conjunct2, rule_format, OF hf] n i
    by simp
  from hs ts c2 hb c3 z c4 k hf n c5 o show ?thesis by (intro conjI)
qed

subsection \<open>What happens at a structural violation\<close>

text \<open>
  C1, as the program has it. At each of the four violations the process exits with
  status -1: a selector byte \<open>0x10\<close> with fewer than 3 bytes in the field, a nonzero
  items length in an extended event descriptor, \<open>EILSEQ\<close> from the conversion, and an
  unknown tag with bytes left after its header. No error value reaches a caller.
\<close>

theorem structural_violation_exits:
  "(1 \<le> len \<and> len < 3 \<and> buf st p = 0x10 \<longrightarrow>
      get_code_table (rd (buf st) p) len = Exit (- 1)
      \<and> dump_text L p len a st = Exit (- 1))
   \<and> (buf st p = EXTENDED_EVENT_DESCRIPTOR \<and> buf st (p + 6) \<noteq> 0 \<longrightarrow>
        descriptor_step L num st p = Exit (- 1))
   \<and> (get_code_table (rd (buf st) p) len = Return (inc, code_table)
        \<and> lib_open L tocode code_table
        \<and> prepend_bytes_left a (p + int inc) st = (q, st1)
        \<and> failure (lib_conv L tocode code_table (peek (buf st1) q (len - inc)) 2048)
            = Some EILSEQ \<longrightarrow>
        dump_text L p len a st = Exit (- 1))
   \<and> (buf st p \<noteq> SHORT_EVENT_DESCRIPTOR \<and> buf st p \<noteq> EXTENDED_EVENT_DESCRIPTOR
        \<and> buf st p \<noteq> COMPONENT_DESCRIPTOR \<and> p + 2 < int num \<longrightarrow>
        descriptor_step L num st p = Exit (- 1))"
proof (intro conjI impI)
  assume h: "1 \<le> len \<and> len < 3 \<and> buf st p = 0x10"
  then show g: "get_code_table (rd (buf st) p) len = Exit (- 1)"
    by (simp add: get_code_table_def rd_def Let_def)
  then show "dump_text L p len a st = Exit (- 1)"
    by (simp add: dump_text_def and_then_def)
next
  assume "buf st p = EXTENDED_EVENT_DESCRIPTOR \<and> buf st (p + 6) \<noteq> 0"
  with tags_distinct show "descriptor_step L num st p = Exit (- 1)"
    by (simp add: descriptor_step_def extended_event_branch_def Let_def add_ac word_gt_0)
next
  assume "get_code_table (rd (buf st) p) len = Return (inc, code_table)
        \<and> lib_open L tocode code_table
        \<and> prepend_bytes_left a (p + int inc) st = (q, st1)
        \<and> failure (lib_conv L tocode code_table (peek (buf st1) q (len - inc)) 2048)
            = Some EILSEQ"
  then show "dump_text L p len a st = Exit (- 1)"
    by (simp add: dump_text_def and_then_def Let_def)
next
  assume "buf st p \<noteq> SHORT_EVENT_DESCRIPTOR \<and> buf st p \<noteq> EXTENDED_EVENT_DESCRIPTOR
        \<and> buf st p \<noteq> COMPONENT_DESCRIPTOR \<and> p + 2 < int num"
  then show "descriptor_step L num st p = Exit (- 1)"
    by (simp add: descriptor_step_def Let_def)
qed

theorem structural_violation_exits_witness:
  "(1 :: nat) \<le> 1 \<and> (1 :: nat) < 3 \<and> buf (buffer_state [0x10]) 0 = 0x10
   \<and> get_code_table (rd (buf (buffer_state [0x10])) 0) 1 = Exit (- 1)
   \<and> dump_text demo_lib 0 1 False (buffer_state [0x10]) = Exit (- 1)
   \<and> buf (buffer_state [0x4E, 0x06, 0x01, 0x64, 0x65, 0x75, 0x05, 0x00]) 0
       = EXTENDED_EVENT_DESCRIPTOR
   \<and> buf (buffer_state [0x4E, 0x06, 0x01, 0x64, 0x65, 0x75, 0x05, 0x00]) (0 + 6) \<noteq> 0
   \<and> descriptor_step demo_lib 8 (buffer_state [0x4E, 0x06, 0x01, 0x64, 0x65, 0x75, 0x05, 0x00]) 0
       = Exit (- 1)
   \<and> get_code_table (rd (buf (buffer_state [0x15, 0xFF])) 0) 2 = Return (1, ''ISO-10646/UTF8'')
   \<and> lib_open demo_lib tocode ''ISO-10646/UTF8''
   \<and> prepend_bytes_left False (0 + int 1) (buffer_state [0x15, 0xFF])
       = (1, (buffer_state [0x15, 0xFF])\<lparr>bytes_left := None\<rparr>)
   \<and> failure (lib_conv demo_lib tocode ''ISO-10646/UTF8''
                 (peek (buf ((buffer_state [0x15, 0xFF])\<lparr>bytes_left := None\<rparr>)) 1 (2 - 1)) 2048)
       = Some EILSEQ
   \<and> dump_text demo_lib 0 2 False (buffer_state [0x15, 0xFF]) = Exit (- 1)
   \<and> buf (buffer_state unknown_tag_bytes) 0 \<noteq> SHORT_EVENT_DESCRIPTOR
   \<and> buf (buffer_state unknown_tag_bytes) 0 \<noteq> EXTENDED_EVENT_DESCRIPTOR
   \<and> buf (buffer_state unknown_tag_bytes) 0 \<noteq> COMPONENT_DESCRIPTOR
   \<and> (0 :: int) + 2 < int 3
   \<and> descriptor_step demo_lib 3 (buffer_state unknown_tag_bytes) 0 = Exit (- 1)"
proof -
  let ?e = "[0x4E, 0x06, 0x01, 0x64, 0x65, 0x75, 0x05, 0x00] :: byte list"
  have a: "1 \<le> (1 :: nat) \<and> (1 :: nat) < 3 \<and> buf (buffer_state [0x10]) 0 = 0x10"
    by code_simp
  have b: "buf (buffer_state ?e) 0 = EXTENDED_EVENT_DESCRIPTOR
           \<and> buf (buffer_state ?e) (0 + 6) \<noteq> 0"
    by code_simp
  have c1: "get_code_table (rd (buf (buffer_state [0x15, 0xFF])) 0) 2
              = Return (1, ''ISO-10646/UTF8'')"
    by code_simp
  have c2: "lib_open demo_lib tocode ''ISO-10646/UTF8''" by code_simp
  have c3: "prepend_bytes_left False (0 + int 1) (buffer_state [0x15, 0xFF])
              = (1, (buffer_state [0x15, 0xFF])\<lparr>bytes_left := None\<rparr>)"
    by (simp add: prepend_no_append)
  have c4: "failure (lib_conv demo_lib tocode ''ISO-10646/UTF8''
                 (peek (buf ((buffer_state [0x15, 0xFF])\<lparr>bytes_left := None\<rparr>)) 1 (2 - 1)) 2048)
              = Some EILSEQ"
    by code_simp
  have d: "buf (buffer_state unknown_tag_bytes) 0 \<noteq> SHORT_EVENT_DESCRIPTOR
           \<and> buf (buffer_state unknown_tag_bytes) 0 \<noteq> EXTENDED_EVENT_DESCRIPTOR
           \<and> buf (buffer_state unknown_tag_bytes) 0 \<noteq> COMPONENT_DESCRIPTOR
           \<and> (0 :: int) + 2 < int 3"
    by code_simp
  note A = structural_violation_exits [where len = 1 and st = "buffer_state [0x10]" and p = 0
             and L = demo_lib and a = False,
             THEN conjunct1, rule_format, OF a]
  note B = structural_violation_exits [where st = "buffer_state ?e" and p = 0
             and L = demo_lib and num = 8,
             THEN conjunct2, THEN conjunct1, rule_format, OF b]
  note C = structural_violation_exits [where st = "buffer_state [0x15, 0xFF]" and p = 0
             and len = 2 and inc = 1 and code_table = "''ISO-10646/UTF8''" and L = demo_lib
             and a = False and q = 1
             and ?st1.0 = "(buffer_state [0x15, 0xFF])\<lparr>bytes_left := None\<rparr>",
             THEN conjunct2, THEN conjunct2, THEN conjunct1, rule_format,
             OF conjI [OF c1 conjI [OF c2 conjI [OF c3 c4]]]]
  note D = structural_violation_exits [where st = "buffer_state unknown_tag_bytes" and p = 0
             and L = demo_lib and num = 3,
             THEN conjunct2, THEN conjunct2, THEN conjunct2, rule_format, OF d]
  from a A b B c1 c2 c3 c4 C d D show ?thesis by (intro conjI) (elim conjE, assumption)+
qed

text \<open>
  C1 as stated fails: decoding a file whose descriptor loop meets the unknown tag
  \<open>0x51\<close> with a byte left does not return to any caller, the process exits with
  status -1.
\<close>

theorem structural_violation_counterexample:
  "main demo_lib [example_file ''a.eit'' (example_header @ unknown_tag_bytes)] = Exit (- 1)"
proof -
  have "is_Exit (main demo_lib [example_file ''a.eit'' (example_header @ unknown_tag_bytes)])
        \<and> status (main demo_lib [example_file ''a.eit'' (example_header @ unknown_tag_bytes)])
            = - 1"
    by code_simp
  then show ?thesis by (rule outcome_exit_collapse)
qed

subsection \<open>Carried-over bytes\<close>

lemma peek_nth: "k < n \<Longrightarrow> peek m p n ! k = m (p + int k)"
  by (simp add: peek_def rd_def)

lemma length_peek [simp]: "length (peek m p n) = n"
  by (simp add: peek_def)

text \<open>
  What the converter is given when bytes are carried over: the carried bytes, followed by
  the field without its last bytes, as many as were carried. \<open>len\<close> is not enlarged
  when the cursor is moved back.
\<close>

lemma prepended_input:
  assumes "bytes_left st = Some bl"
    and "prepend_bytes_left True p st = (p', st')"
  shows "peek (buf st') p' len = take len (bl @ peek (buf st) p (len - length bl))"
proof -
  from assms have p': "p' = p - int (length bl)" and b: "buf st' = poke (buf st) p' bl"
    by (auto simp: prepend_bytes_left_def Let_def)
  show ?thesis
  proof (rule nth_equalityI)
    show "length (peek (buf st') p' len) = length (take len (bl @ peek (buf st) p (len - length bl)))"
      by simp
  next
    fix k assume "k < length (peek (buf st') p' len)"
    then have k: "k < len" by simp
    show "peek (buf st') p' len ! k = take len (bl @ peek (buf st) p (len - length bl)) ! k"
    proof (cases "k < length bl")
      case True
      with k show ?thesis
        by (simp add: peek_nth b poke_def nth_append)
    next
      case False
      then have i: "p' + int k = p + int (k - length bl)"
        by (simp add: p')
      from False k have "peek (buf st') p' len ! k = buf st (p' + int k)"
        by (simp add: peek_nth b poke_def)
      also have "\<dots> = buf st (p + int (k - length bl))"
        by (simp only: i)
      also from False k have "\<dots> = peek (buf st) p (len - length bl) ! (k - length bl)"
        by (simp add: peek_nth)
      also from False k have "\<dots> = take len (bl @ peek (buf st) p (len - length bl)) ! k"
        by (simp add: nth_append)
      finally show ?thesis .
    qed
  qed
qed

text \<open>
  C5, as the program has it. Beginning a record neither checks nor clears the carried
  bytes: \<open>file_header\<close> does with them what it does without them and passes them on.
  A text field decoded with \<open>append = 0\<close> drops them: its outcome is the same with and
  without them.
\<close>

theorem stale_bytes_left_dropped:
  "file_header f (st\<lparr>bytes_left := c\<rparr>)
     = and_then (file_header f st) (\<lambda>(num, st1, p). Return (num, st1\<lparr>bytes_left := c\<rparr>, p))
   \<and> dump_text L p len False (st\<lparr>bytes_left := c\<rparr>) = dump_text L p len False st"
proof
  show "file_header f (st\<lparr>bytes_left := c\<rparr>)
     = and_then (file_header f st) (\<lambda>(num, st1, p). Return (num, st1\<lparr>bytes_left := c\<rparr>, p))"
    by (simp add: file_header_def and_then_def emit_def Let_def
        split: option.splits prod.splits)
  show "dump_text L p len False (st\<lparr>bytes_left := c\<rparr>) = dump_text L p len False st"
    by (cases "get_code_table (rd (buf st) p) len")
       (auto simp: dump_text_def and_then_def prepend_no_append Let_def split: prod.splits)
qed

text \<open>
  C5 as stated fails: \<open>cut_file\<close> leaves the byte \<open>C3\<close> carried over; decoding
  \<open>short_file\<close> after it returns as usual and the byte is gone.
\<close>

theorem stale_bytes_left_counterexample:
  "is_Return after_cut_file
   \<and> bytes_left (result after_cut_file) = Some [0xC3]
   \<and> is_Return after_short_file
   \<and> bytes_left (result after_short_file) = None"
  unfolding after_short_file_def after_cut_file_def cut_file_def short_file_def
  by code_simp

subsection \<open>A text cut inside a character\<close>

text \<open>
  C2 fails on the program. Decoded as one field the text \<open>C3 A4 62\<close> is printed whole.
  Cut after \<open>C3\<close>, the first field prints nothing and carries \<open>C3\<close> over; the second
  field, decoded as a continuation, prints \<open>C3 A4\<close> only: the last byte of the field
  is not converted. When the second part has no selector byte of its own it is taken for
  ISO-8859-1, and \<open>C3 A4\<close> is printed as two Latin characters, again without the
  last byte.
\<close>

theorem split_text_loses_tail:
  "is_Return unsplit_text
   \<and> out (result unsplit_text) = [CHR 0xC3, CHR 0xA4, CHR ''b'']
   \<and> is_Return split_text_first
   \<and> out (result split_text_first) = []
   \<and> bytes_left (result split_text_first) = Some [0xC3]
   \<and> is_Return split_text_second
   \<and> out (result split_text_second) = [CHR 0xC3, CHR 0xA4]
   \<and> bytes_left (result split_text_second) = None
   \<and> is_Return raw_split_first
   \<and> out (result raw_split_first) = []
   \<and> bytes_left (result raw_split_first) = Some [0xC3]
   \<and> is_Return raw_split_second
   \<and> out (result raw_split_second) = [CHR 0xC3, CHR 0x83, CHR 0xC2, CHR 0xA4]"
  unfolding unsplit_text_def split_text_second_def split_text_first_def
    raw_split_second_def raw_split_first_def
  by code_simp

subsection \<open>The language code of an extended event descriptor\<close>

lemma peek_agree:
  assumes "\<forall>a\<ge>lo. m1 a = m2 a" and "lo \<le> q"
  shows "peek m1 q n = peek m2 q n"
  using assms by (simp add: peek_def rd_def)

lemma rd_agree:
  assumes "\<forall>a\<ge>lo. m1 a = m2 a" and "lo \<le> q"
  shows "rd m1 q = rd m2 q"
  using assms by (auto simp: rd_def)

lemma poke_agree:
  assumes "\<forall>a\<ge>lo. m1 a = m2 a" and "lo \<le> q + int (length bl)"
  shows "\<forall>a\<ge>q. poke m1 q bl a = poke m2 q bl a"
  using assms by (auto simp: poke_def)

text \<open>
  A text field is decoded from the bytes at and after its start and from the carried
  bytes: two states that differ only in the buffer before \<open>p\<close> give the same outcome,
  output, carried bytes and counter.
\<close>

lemma dump_text_agree:
  assumes o: "out s1 = out s2" and l: "bytes_left s1 = bytes_left s2"
    and c: "shortevent_count s1 = shortevent_count s2"
    and b: "\<forall>a\<ge>p. buf s1 a = buf s2 a"
  shows "map_outcome (\<lambda>s. (out s, bytes_left s, shortevent_count s)) (dump_text L p len a s1)
       = map_outcome (\<lambda>s. (out s, bytes_left s, shortevent_count s)) (dump_text L p len a s2)"
proof -
  have g: "get_code_table (rd (buf s1) p) len = get_code_table (rd (buf s2) p) len"
    using rd_agree [OF b, of p] by simp
  show ?thesis
  proof (cases "get_code_table (rd (buf s2) p) len")
    case (Return x)
    obtain inc ct where x: "x = (inc, ct)" by (cases x)
    obtain q t1 where p1: "prepend_bytes_left a (p + int inc) s1 = (q, t1)"
      by (cases "prepend_bytes_left a (p + int inc) s1")
    obtain q' t2 where p2: "prepend_bytes_left a (p + int inc) s2 = (q', t2)"
      by (cases "prepend_bytes_left a (p + int inc) s2")
    have qq: "q' = q"
      using p1 p2 l by (auto simp: prepend_bytes_left_def Let_def split: option.splits if_splits)
    have f: "out t1 = out t2" "shortevent_count t1 = shortevent_count t2"
      "bytes_left t1 = None" "bytes_left t2 = None"
      using prepend_fields [OF p1] prepend_fields [OF p2] o c by simp_all
    have bt: "\<forall>a\<ge>q. buf t1 a = buf t2 a"
    proof (cases "a \<and> bytes_left s1 \<noteq> None")
      case True
      then obtain bl where bl: "bytes_left s1 = Some bl" by auto
      with True p1 have 1: "q = p + int inc - int (length bl)" "buf t1 = poke (buf s1) q bl"
        by (auto simp: prepend_bytes_left_def Let_def)
      from bl l True p2 qq have 2: "buf t2 = poke (buf s2) q bl"
        by (auto simp: prepend_bytes_left_def Let_def)
      from 1 have "p \<le> q + int (length bl)" by simp
      from poke_agree [OF b this] 1 2 show ?thesis by simp
    next
      case False
      with p1 p2 l have "q = p + int inc" "buf t1 = buf s1" "buf t2 = buf s2"
        by (auto simp: prepend_bytes_left_def Let_def split: option.splits if_splits)
      with b show ?thesis by simp
    qed
    have pk: "peek (buf t1) (q + int k) n = peek (buf t2) (q + int k) n" for k n
      by (rule peek_agree [OF bt]) simp
    from pk [of 0] have pk0: "peek (buf t1) q n = peek (buf t2) q n" for n by simp
    show ?thesis
      using g Return x p1 p2 qq f pk pk0
      by (auto simp: dump_text_def and_then_def Let_def emit_def
          split: option.splits)
  next
    case (Exit e)
    with g show ?thesis by (simp add: dump_text_def and_then_def)
  next
    case Abort
    with g show ?thesis by (simp add: dump_text_def and_then_def)
  qed
qed

lemma extended_event_branch_language_unread:
  assumes dn: "drop_bit 4 (buf st q) \<noteq> 0"
  shows "observe (extended_event_branch L (st\<lparr>buf := (buf st)(q + 1 := x, q + 2 := y, q + 3 := z)\<rparr>) q)
       = observe (extended_event_branch L st q)"
proof -
  let ?st2 = "st\<lparr>buf := (buf st)(q + 1 := x, q + 2 := y, q + 3 := z)\<rparr>"
  have r: "buf ?st2 q = buf st q" "buf ?st2 (q + 4) = buf st (q + 4)"
    "buf ?st2 (q + 5) = buf st (q + 5)"
    by simp_all
  have "\<forall>a\<ge>q + 6. buf ?st2 a = buf st a" by simp
  from dump_text_agree [OF _ _ _ this, of L "unat (buf st (q + 5))" "drop_bit 4 (buf st q) > 0"]
  have d: "map_outcome (\<lambda>s. (out s, bytes_left s, shortevent_count s))
             (dump_text L (q + 6) (unat (buf st (q + 5))) (drop_bit 4 (buf st q) > 0) ?st2)
         = map_outcome (\<lambda>s. (out s, bytes_left s, shortevent_count s))
             (dump_text L (q + 6) (unat (buf st (q + 5))) (drop_bit 4 (buf st q) > 0) st)"
    by simp
  show ?thesis
  proof (cases "dump_text L (q + 6) (unat (buf st (q + 5))) (drop_bit 4 (buf st q) > 0) st")
    case (Return s)
    with d obtain s2 where
      "dump_text L (q + 6) (unat (buf st (q + 5))) (drop_bit 4 (buf st q) > 0) ?st2 = Return s2"
      "out s2 = out s" "bytes_left s2 = bytes_left s" "shortevent_count s2 = shortevent_count s"
      by (cases "dump_text L (q + 6) (unat (buf st (q + 5))) (drop_bit 4 (buf st q) > 0) ?st2")
         auto
    with Return dn r show ?thesis
      by (simp add: extended_event_branch_def observe_def and_then_def Let_def add_ac)
  next
    case (Exit e)
    with d have
      "dump_text L (q + 6) (unat (buf st (q + 5))) (drop_bit 4 (buf st q) > 0) ?st2 = Exit e"
      by (cases "dump_text L (q + 6) (unat (buf st (q + 5))) (drop_bit 4 (buf st q) > 0) ?st2")
         auto
    with Exit dn r show ?thesis
      by (simp add: extended_event_branch_def observe_def and_then_def Let_def add_ac)
  next
    case Abort
    with d have
      "dump_text L (q + 6) (unat (buf st (q + 5))) (drop_bit 4 (buf st q) > 0) ?st2 = Abort"
      by (cases "dump_text L (q + 6) (unat (buf st (q + 5))) (drop_bit 4 (buf st q) > 0) ?st2")
         auto
    with Abort dn r show ?thesis
      by (simp add: extended_event_branch_def observe_def and_then_def Let_def add_ac)
  qed
qed

lemma extended_event_branch_header:
  assumes "extended_event_branch L st q = Return (st', q')"
    and "drop_bit 4 (buf st q) = 0"
  shows "\<exists>txt. out st' = out st @ (''  '' @ quoted ''extended_event_descriptor''
           @ '':\<newline>  {\<newline>'' @ ''    '' @ quoted ''iso_639_2_language_code'' @ '': ''
           @ quoted [fmt_c (buf st (q + 1)), fmt_c (buf st (q + 2)), fmt_c (buf st (q + 3))]
           @ '',\<newline>'' @ ''    '' @ quoted ''text'' @ '': '' @ DQ) @ txt"
proof -
  define H where "H = ''  '' @ quoted ''extended_event_descriptor''
           @ '':\<newline>  {\<newline>'' @ ''    '' @ quoted ''iso_639_2_language_code'' @ '': ''
           @ quoted [fmt_c (buf st (q + 1)), fmt_c (buf st (q + 2)), fmt_c (buf st (q + 3))]
           @ '',\<newline>'' @ ''    '' @ quoted ''text'' @ '': '' @ DQ"
  from assms obtain s1 where
    d: "dump_text L (q + 6) (unat (buf st (q + 5))) False (emit H st) = Return s1"
    and s: "st' = s1 \<or> st' = emit (DQ @ ''\<newline>  },\<newline>'') s1"
    unfolding H_def
    by (auto simp: extended_event_branch_def and_then_def Let_def add_ac
        split: outcome.splits if_splits)
  from dump_text_out [OF d] obtain t1 where "out s1 = out st @ H @ t1" by auto
  with s have "out st' = out st @ H @ t1 \<or> out st' = out st @ H @ (t1 @ DQ @ ''\<newline>  },\<newline>'')"
    by auto
  then show ?thesis unfolding H_def by blast
qed

text \<open>
  C4, as the program has it. In every extended event descriptor the three bytes of the
  language code are consumed: the items length is the byte after them and the cursor
  moves past them, whatever the descriptor number. They are read and printed when the
  descriptor number is 0, with the opening of the output block. When it is not 0 they
  are skipped unread: the pass gives the same outcome, output, carried bytes, counter
  and cursor whatever the three bytes are.
\<close>

theorem extended_event_language_code:
  "(buf st p = EXTENDED_EVENT_DESCRIPTOR \<and> descriptor_step L num st p = Return (st', p') \<longrightarrow>
      buf st (p + 6) = 0 \<and> p' = p + 2 + 1 + 3 + 1 + 1 + uint (buf st (p + 7)))
   \<and> (buf st p = EXTENDED_EVENT_DESCRIPTOR \<and> drop_bit 4 (buf st (p + 2)) = 0
        \<and> descriptor_step L num st p = Return (st', p') \<longrightarrow>
        (\<exists>txt. out st' = out st @ (''  '' @ quoted ''extended_event_descriptor''
           @ '':\<newline>  {\<newline>'' @ ''    '' @ quoted ''iso_639_2_language_code'' @ '': ''
           @ quoted [fmt_c (buf st (p + 3)), fmt_c (buf st (p + 4)), fmt_c (buf st (p + 5))]
           @ '',\<newline>'' @ ''    '' @ quoted ''text'' @ '': '' @ DQ) @ txt))
   \<and> (buf st p = EXTENDED_EVENT_DESCRIPTOR \<and> drop_bit 4 (buf st (p + 2)) \<noteq> 0 \<longrightarrow>
        observe (descriptor_step L num
                   (st\<lparr>buf := (buf st)(p + 3 := x, p + 4 := y, p + 5 := z)\<rparr>) p)
          = observe (descriptor_step L num st p))"
proof (intro conjI impI)
  assume h: "buf st p = EXTENDED_EVENT_DESCRIPTOR \<and> descriptor_step L num st p = Return (st', p')"
  then have t: "buf st p = EXTENDED_EVENT_DESCRIPTOR"
    and r: "descriptor_step L num st p = Return (st', p')" by simp_all
  from r t tags_distinct have "extended_event_branch L st (p + 2) = Return (st', p')"
    by (simp add: descriptor_step_def Let_def)
  from extended_event_branch_result [OF this]
  show "buf st (p + 6) = 0" and "p' = p + 2 + 1 + 3 + 1 + 1 + uint (buf st (p + 7))"
    by (simp_all add: add_ac)
next
  assume h: "buf st p = EXTENDED_EVENT_DESCRIPTOR \<and> drop_bit 4 (buf st (p + 2)) = 0
        \<and> descriptor_step L num st p = Return (st', p')"
  then have t: "buf st p = EXTENDED_EVENT_DESCRIPTOR"
    and r: "descriptor_step L num st p = Return (st', p')" by simp_all
  from r t tags_distinct have "extended_event_branch L st (p + 2) = Return (st', p')"
    by (simp add: descriptor_step_def Let_def)
  from extended_event_branch_header [OF this] h
  show "\<exists>txt. out st' = out st @ (''  '' @ quoted ''extended_event_descriptor''
           @ '':\<newline>  {\<newline>'' @ ''    '' @ quoted ''iso_639_2_language_code'' @ '': ''
           @ quoted [fmt_c (buf st (p + 3)), fmt_c (buf st (p + 4)), fmt_c (buf st (p + 5))]
           @ '',\<newline>'' @ ''    '' @ quoted ''text'' @ '': '' @ DQ) @ txt"
    by (simp add: add_ac)
next
  assume h: "buf st p = EXTENDED_EVENT_DESCRIPTOR \<and> drop_bit 4 (buf st (p + 2)) \<noteq> 0"
  then have dn: "drop_bit 4 (buf st (p + 2)) \<noteq> 0"
    and t: "buf st p = EXTENDED_EVENT_DESCRIPTOR" by simp_all
  from extended_event_branch_language_unread [OF dn, of L x y z] t tags_distinct
  show "observe (descriptor_step L num
                   (st\<lparr>buf := (buf st)(p + 3 := x, p + 4 := y, p + 5 := z)\<rparr>) p)
          = observe (descriptor_step L num st p)"
    by (simp add: descriptor_step_def Let_def add_ac)
qed

theorem extended_event_language_code_witness:
  "buf (buffer_state continued_extended_bytes) 0 = EXTENDED_EVENT_DESCRIPTOR
   \<and> drop_bit 4 (buf (buffer_state continued_extended_bytes) (0 + 2)) \<noteq> 0
   \<and> continued_extended_pass = Return (fst (result continued_extended_pass), 8)
   \<and> buf (buffer_state continued_extended_bytes) (0 + 6) = 0
   \<and> (8 :: int) = 0 + 2 + 1 + 3 + 1 + 1 + uint (buf (buffer_state continued_extended_bytes) (0 + 7))
   \<and> observe (descriptor_step demo_lib 8
         ((buffer_state continued_extended_bytes)
            \<lparr>buf := (buf (buffer_state continued_extended_bytes))
                      (0 + 3 := 0x41, 0 + 4 := 0x42, 0 + 5 := 0x43)\<rparr>) 0)
       = observe continued_extended_pass
   \<and> buf (buffer_state first_extended_bytes) 0 = EXTENDED_EVENT_DESCRIPTOR
   \<and> drop_bit 4 (buf (buffer_state first_extended_bytes) (0 + 2)) = 0
   \<and> first_extended_pass = Return (fst (result first_extended_pass), 9)
   \<and> (\<exists>txt. out (fst (result first_extended_pass)) =
          out (buffer_state first_extended_bytes) @ (''  '' @ quoted ''extended_event_descriptor''
           @ '':\<newline>  {\<newline>'' @ ''    '' @ quoted ''iso_639_2_language_code'' @ '': ''
           @ quoted [fmt_c (buf (buffer_state first_extended_bytes) (0 + 3)),
                     fmt_c (buf (buffer_state first_extended_bytes) (0 + 4)),
                     fmt_c (buf (buffer_state first_extended_bytes) (0 + 5))]
           @ '',\<newline>'' @ ''    '' @ quoted ''text'' @ '': '' @ DQ) @ txt)"
proof -
  have e: "is_Return continued_extended_pass \<and> snd (result continued_extended_pass) = 8"
    unfolding continued_extended_pass_def by code_simp
  have f: "is_Return first_extended_pass \<and> snd (result first_extended_pass) = 9"
    unfolding first_extended_pass_def by code_simp
  note he = outcome_pair_collapse [OF e] and hf = outcome_pair_collapse [OF f]
  have te: "buf (buffer_state continued_extended_bytes) 0 = EXTENDED_EVENT_DESCRIPTOR"
    by code_simp
  have de: "drop_bit 4 (buf (buffer_state continued_extended_bytes) (0 + 2)) \<noteq> 0"
    by code_simp
  have tf: "buf (buffer_state first_extended_bytes) 0 = EXTENDED_EVENT_DESCRIPTOR"
    by code_simp
  have df: "drop_bit 4 (buf (buffer_state first_extended_bytes) (0 + 2)) = 0"
    by code_simp
  note A = extended_event_language_code [where L = demo_lib and num = 8
      and st = "buffer_state continued_extended_bytes" and p = 0
      and st' = "fst (result continued_extended_pass)" and p' = 8
      and x = "0x41" and y = "0x42" and z = "0x43", folded continued_extended_pass_def]
  note B = extended_event_language_code [where L = demo_lib and num = 9
      and st = "buffer_state first_extended_bytes" and p = 0
      and st' = "fst (result first_extended_pass)" and p' = 9,
      folded first_extended_pass_def]
  note a1 = A [THEN conjunct1, rule_format, OF conjI [OF te he]]
  note a3 = A [THEN conjunct2, THEN conjunct2, rule_format, OF conjI [OF te de]]
  note b2 = B [THEN conjunct2, THEN conjunct1, rule_format, OF conjI [OF tf conjI [OF df hf]]]
  from te de he a1 a3 tf df hf b2 show ?thesis by (intro conjI) (elim conjE, assumption)+
qed

text \<open>
  C4 as stated fails: in the fragment with descriptor number 1 of
  \<open>continued_extended_bytes\<close> the pass moves the cursor over the header, the number byte,
  three language bytes, the items length and the text length, to 8. Without the three
  bytes the items length would be the byte \<open>0x64\<close> and the cursor could not reach 8.
\<close>

theorem extended_event_language_code_counterexample:
  "drop_bit 4 (buf (buffer_state continued_extended_bytes) 2) = 1
   \<and> is_Return continued_extended_pass
   \<and> snd (result continued_extended_pass) = 2 + 1 + 3 + 1 + 1 + 0
   \<and> buf (buffer_state continued_extended_bytes) 3 = 0x64
   \<and> uint (buf (buffer_state continued_extended_bytes) 7) = 0"
  unfolding continued_extended_pass_def by code_simp

end
